theory Spec2Isabelle
  imports Main "HOL-Library.Word" "HOL-Library.Finite_Map"
begin

unbundle bit_operations_syntax

section \<open>The requester of utils-connector-tools\<close>

text \<open>
  A shallow embedding of \<^verbatim>\<open>packages/utils-connector-tools/src/requester.ts\<close>.
  A \<^verbatim>\<open>Buffer\<close> is a list of bytes, a JavaScript string a list of 8-bit code
  units (header values and URIs arrive that way), a promise is the value it settles to:
  a rejection or a thrown exception is an error value, \<^verbatim>\<open>null\<close> is \<open>None\<close>.
  The libraries the file imports (zlib, iltorb, request, iconv-lite, data-urls, url and
  the helpers of @hint/utils) are parameters of the model.
\<close>

type_synonym bytes = "8 word list"

subsection \<open>Strings: \<^verbatim>\<open>trim\<close>, \<^verbatim>\<open>split(',')\<close>, \<^verbatim>\<open>join(',')\<close>, \<^verbatim>\<open>startsWith\<close>\<close>

text \<open>White space and line terminators of ECMAScript among the 8-bit code units.\<close>

definition isWhiteSpace :: "char \<Rightarrow> bool" where
  "isWhiteSpace c =
     (c = CHR 0x09 \<or> c = CHR 0x0A \<or> c = CHR 0x0B \<or> c = CHR 0x0C \<or> c = CHR 0x0D
      \<or> c = CHR 0x20 \<or> c = CHR 0xA0)"

definition trim :: "string \<Rightarrow> string" where
  "trim s = rev (dropWhile isWhiteSpace (rev (dropWhile isWhiteSpace s)))"

fun split_comma :: "string \<Rightarrow> string list" where
  "split_comma [] = [[]]"
| "split_comma (c # cs) =
     (if c = CHR '','' then [] # split_comma cs
      else (case split_comma cs of [] \<Rightarrow> [[c]] | t # ts \<Rightarrow> (c # t) # ts))"

fun join_comma :: "string list \<Rightarrow> string" where
  "join_comma [] = []"
| "join_comma [t] = t"
| "join_comma (t # ts) = t @ CHR '','' # join_comma ts"

definition startsWith :: "string \<Rightarrow> string \<Rightarrow> bool" where
  "startsWith s p = (take (length p) s = p)"

subsection \<open>Decompression primitives and the cascade\<close>

text \<open>
  The four library decoders (\<^verbatim>\<open>iltorb.decompress\<close>, \<^verbatim>\<open>zlib.gunzip\<close>,
  \<^verbatim>\<open>zlib.inflate\<close>, \<^verbatim>\<open>zlib.inflateRaw\<close>, each promisified). \<open>None\<close> is a
  rejected promise.
\<close>

type_synonym decompressor = "bytes \<Rightarrow> bytes option"

record codecs =
  decompressBrotli :: decompressor
  decompressGzip :: decompressor
  inflateAsync :: decompressor
  inflateRawAsync :: decompressor

text \<open>
  \<^verbatim>\<open>inflate\<close>: the RFC 1950 sniff. On an empty buffer \<^verbatim>\<open>buff[0]\<close> is
  \<^verbatim>\<open>undefined\<close>, \<^verbatim>\<open>undefined & 0x0f\<close> is 0 and the raw inflater is used. On a
  one-byte buffer whose low nibble is 8, \<^verbatim>\<open>readUInt16BE(0)\<close> throws a RangeError,
  which \<^verbatim>\<open>tryToDecompress\<close> catches: the decoder fails.
\<close>

definition inflate :: "codecs \<Rightarrow> decompressor" where
  "inflate z buff =
     (case buff of
        [] \<Rightarrow> inflateRawAsync z buff
      | b0 # rest \<Rightarrow>
          if b0 AND 0x0f = 8 then
            (case rest of
               [] \<Rightarrow> None
             | b1 # _ \<Rightarrow>
                 if (unat b0 * 256 + unat b1) mod 31 = 0 then inflateAsync z buff
                 else inflateRawAsync z buff)
          else inflateRawAsync z buff)"

definition identity :: decompressor where
  "identity buff = Some buff"

definition tryToDecompress :: "decompressor \<Rightarrow> bytes \<Rightarrow> bytes option" where
  "tryToDecompress decompressor content =
     (case decompressor content of Some result \<Rightarrow> Some result | None \<Rightarrow> None)"

text \<open>
  What \<^verbatim>\<open>priorities[name]\<close> evaluates to. \<^verbatim>\<open>priorities\<close> is an object literal,
  so besides its four own keys a lookup finds the properties it inherits from
  \<^verbatim>\<open>Object.prototype\<close>; every other name gives \<^verbatim>\<open>undefined\<close>.
\<close>

datatype js_value = Number nat | Inherited | Undefined

definition objectPrototypeKeys :: "string list" where
  "objectPrototypeKeys =
     [''constructor'', ''hasOwnProperty'', ''isPrototypeOf'', ''propertyIsEnumerable'',
      ''toLocaleString'', ''toString'', ''valueOf'', ''__proto__'',
      ''__defineGetter__'', ''__defineSetter__'', ''__lookupGetter__'', ''__lookupSetter__'']"

definition priorities :: "string \<Rightarrow> js_value" where
  "priorities name =
     (if name = ''br'' then Number 0
      else if name = ''gzip'' then Number 1
      else if name = ''deflate'' then Number 2
      else if name = ''identity'' then Number 3
      else if name \<in> set objectPrototypeKeys then Inherited
      else Undefined)"

text \<open>
  \<^verbatim>\<open>functions.slice(priority)\<close>: a number is the start index; \<^verbatim>\<open>undefined\<close>
  and a function or object convert to \<^verbatim>\<open>NaN\<close>, that is to index 0.
\<close>

fun slice :: "'a list \<Rightarrow> js_value \<Rightarrow> 'a list" where
  "slice xs (Number n) = drop n xs"
| "slice xs Inherited = xs"
| "slice xs Undefined = xs"

definition decompressors :: "codecs \<Rightarrow> string \<Rightarrow> decompressor list" where
  "decompressors z algorithm =
     (let functions = [decompressBrotli z, decompressGzip z, inflate z, identity];
          priority = (if priorities (trim algorithm) = Undefined then priorities ''identity''
                      else priorities algorithm)
      in slice functions priority)"

text \<open>The \<^verbatim>\<open>for\<close> loop of \<^verbatim>\<open>decompressResponse\<close>: stop at the first non-null result.\<close>

fun decompressLoop :: "decompressor list \<Rightarrow> bytes \<Rightarrow> bytes option" where
  "decompressLoop [] rawBodyResponse = None"
| "decompressLoop (decompressor # rest) rawBodyResponse =
     (case tryToDecompress decompressor rawBodyResponse of
        Some rawBody \<Rightarrow> Some rawBody
      | None \<Rightarrow> decompressLoop rest rawBodyResponse)"

lemma split_comma_not_Nil: "split_comma s \<noteq> []"
  by (induction s) (auto split: list.splits)

lemma length_join_split_comma: "length (join_comma (split_comma s)) = length s"
proof (induction s)
  case Nil
  show ?case by simp
next
  case (Cons c cs)
  obtain t ts where ts: "split_comma cs = t # ts"
    using split_comma_not_Nil [of cs] by (cases "split_comma cs") auto
  show ?case
  proof (cases "c = CHR '',''")
    case True
    with Cons ts show ?thesis by simp
  next
    case False
    with Cons ts show ?thesis by (cases ts) simp_all
  qed
qed

lemma length_join_tail:
  assumes "split_comma s = a # algorithms" and "algorithms \<noteq> []"
  shows "length (join_comma algorithms) < length s"
proof -
  from assms(2) obtain b bs where "algorithms = b # bs" by (cases algorithms) auto
  with assms(1) have "length (join_comma (split_comma s)) = length a + 1 + length (join_comma algorithms)"
    by simp
  then show ?thesis by (simp add: length_join_split_comma)
qed

text \<open>
  \<^verbatim>\<open>decompressResponse\<close>. \<^verbatim>\<open>algorithms.shift()\<close> takes the first token;
  the rest, joined again, is the declaration of the recursive call. The split never
  returns the empty list, so the first branch is dead.
\<close>

function decompressResponse :: "codecs \<Rightarrow> string option \<Rightarrow> bytes \<Rightarrow> bytes option" where
  "decompressResponse z contentEncoding rawBodyResponse =
     (case (case contentEncoding of
              None \<Rightarrow> [[]]
            | Some s \<Rightarrow> if s = [] then [[]] else split_comma s) of
        [] \<Rightarrow> None
      | algorithm # algorithms \<Rightarrow>
          (case decompressLoop (decompressors z (trim algorithm)) rawBodyResponse of
             None \<Rightarrow> None
           | Some rawBody \<Rightarrow>
               if algorithms \<noteq> [] then decompressResponse z (Some (join_comma algorithms)) rawBody
               else Some rawBody))"
  by pat_completeness auto
termination
proof (relation "measure (\<lambda>(z, contentEncoding, rawBodyResponse).
                   case contentEncoding of None \<Rightarrow> 0 | Some s \<Rightarrow> length s)")
  show "wf (measure (\<lambda>(z :: codecs, contentEncoding, rawBodyResponse :: bytes).
                   case contentEncoding of None \<Rightarrow> 0 | Some s \<Rightarrow> length s))"
    by simp
next
  fix z :: codecs and contentEncoding :: "string option" and rawBodyResponse :: bytes
    and algorithm algorithms rawBody
  assume a: "(case contentEncoding of None \<Rightarrow> [[]]
              | Some s \<Rightarrow> if s = [] then [[]] else split_comma s) = algorithm # algorithms"
    and ne: "algorithms \<noteq> []"
  from a ne obtain s where s: "contentEncoding = Some s" "split_comma s = algorithm # algorithms"
    by (cases contentEncoding) (auto split: if_splits)
  from length_join_tail [OF s(2) ne] s(1)
  show "((z, Some (join_comma algorithms), rawBody), z, contentEncoding, rawBodyResponse)
        \<in> measure (\<lambda>(z, contentEncoding, rawBodyResponse).
                   case contentEncoding of None \<Rightarrow> 0 | Some s \<Rightarrow> length s)"
    by simp
qed

declare decompressResponse.simps [simp del]

subsection \<open>RedirectManager\<close>

type_synonym RedirectManager = "(string, string) fmap"

text \<open>
  Modelled from the spec: \<^verbatim>\<open>RedirectManager.add\<close> (the class lives in
  \<^verbatim>\<open>./redirects\<close>, which is not among the sources). It records that fetching
  \<open>source\<close> produced a redirect to \<open>target\<close>, storing or overwriting the predecessor
  of \<open>target\<close>.
\<close>

definition add :: "string \<Rightarrow> string \<Rightarrow> RedirectManager \<Rightarrow> RedirectManager" where
  "add target source m = fmupd target source m"

text \<open>
  Modelled from the spec: the walk of \<^verbatim>\<open>RedirectManager.calculate\<close> along the
  predecessor links, from a URI towards its earliest recorded ancestor, until no
  predecessor exists. The result lists the URIs in the order they are reached, the
  starting URI first. The spec asks for a bounded walk that ends on cyclic data and does
  not say how it is bounded; here the walk ends when the next predecessor is already on
  the path.
\<close>

function walk :: "RedirectManager \<Rightarrow> string list \<Rightarrow> string \<Rightarrow> string list" where
  "walk m seen u =
     u # (case fmlookup m u of
            None \<Rightarrow> []
          | Some p \<Rightarrow> if p \<in> set (u # seen) then [] else walk m (u # seen) p)"
  by pat_completeness auto
termination
proof (relation "measure (\<lambda>(m, seen, u). card (fmran' m - set (u # seen)))")
  show "wf (measure (\<lambda>(m :: RedirectManager, seen, u). card (fmran' m - set (u # seen))))"
    by simp
next
  fix m :: RedirectManager and seen :: "string list" and u p :: string
  assume look: "fmlookup m u = Some p" and new: "p \<notin> set (u # seen)"
  have fin: "finite (fmran' m - set (u # seen))"
    by (simp add: fmran'_alt_def)
  have mem: "p \<in> fmran' m - set (u # seen)"
    using look new by (simp add: fmran'I)
  have eq: "fmran' m - set (p # u # seen) = (fmran' m - set (u # seen)) - {p}"
    by auto
  have "card ((fmran' m - set (u # seen)) - {p}) < card (fmran' m - set (u # seen))"
    using fin mem by (rule card_Diff1_less)
  then have "card (fmran' m - set (p # u # seen)) < card (fmran' m - set (u # seen))"
    by (simp only: eq)
  then show "((m, u # seen, p), m, seen, u)
             \<in> measure (\<lambda>(m, seen, u). card (fmran' m - set (u # seen)))"
    by simp
qed

declare walk.simps [simp del]

text \<open>
  Modelled from the spec: \<^verbatim>\<open>RedirectManager.calculate\<close>, the ordered sequence of
  the URIs that led to \<open>uri\<close>, from the earliest recorded ancestor to the URI that
  redirected to \<open>uri\<close>. The spec's description of the component ends the sequence
  with \<open>uri\<close> itself; its data model has the hops empty when no redirects occurred,
  and the source takes the length of the result for the number of redirects and guards
  \<^verbatim>\<open>hops[0]\<close> against an empty result. So \<open>uri\<close>, where the walk starts, is
  not part of the result.
\<close>

definition calculate :: "RedirectManager \<Rightarrow> string \<Rightarrow> string list" where
  "calculate m uri = rev (tl (walk m [] uri))"

text \<open>
  The predecessor links of a list of URIs: the first has predecessor \<open>p\<close> (none, for
  \<open>None\<close>), every other one the URI before it.
\<close>

fun chained :: "RedirectManager \<Rightarrow> string option \<Rightarrow> string list \<Rightarrow> bool" where
  "chained m p [] = True"
| "chained m p (u # us) = (fmlookup m u = p \<and> chained m (Some u) us)"

subsection \<open>Options and construction\<close>

type_synonym HttpHeaders = "(string \<times> string) list"

text \<open>
  The options of \<^verbatim>\<open>request\<close> the file reads or writes; \<open>None\<close> is a property that
  is not set and \<open>httpMethod\<close> is the option \<^verbatim>\<open>method\<close>. Numbers are integers.
  \<^verbatim>\<open>encoding: null\<close> of the defaults plays no part here and is left out.
\<close>

record CoreOptions =
  followRedirect :: "bool option"
  rejectUnauthorized :: "bool option"
  maxRedirects :: "int option"
  headers :: "HttpHeaders option"
  httpMethod :: "string option"
  jar :: "bool option"
  time :: "bool option"
  timeout :: "int option"

definition defaultHeaders :: HttpHeaders where
  "defaultHeaders =
     [(''Accept-Encoding'', ''gzip, deflate, br''),
      (''Accept-Language'', ''en-US,en;q=0.8,es;q=0.6,fr;q=0.4''),
      (''Cache-Control'', ''no-cache''),
      (''DNT'', ''1''),
      (''Pragma'', ''no-cache''),
      (''User-Agent'', ''Mozilla/5.0 (Windows NT 10.0; Win64; x64) AppleWebKit/537.36 (KHTML, like Gecko) Chrome/74.0.3729.131 Safari/537.36'')]"

definition defaults :: CoreOptions where
  "defaults =
     \<lparr> followRedirect = Some False, rejectUnauthorized = None, maxRedirects = None,
       headers = Some defaultHeaders, httpMethod = None,
       jar = Some True, time = Some True, timeout = Some 10000 \<rparr>"

text \<open>\<^verbatim>\<open>Object.assign\<close> on one property: the later source wins where it sets it.\<close>

definition assignProp :: "'a option \<Rightarrow> 'a option \<Rightarrow> 'a option" where
  "assignProp target source = (case source of Some v \<Rightarrow> Some v | None \<Rightarrow> target)"

text \<open>\<^verbatim>\<open>Object.assign({}, defaults, customOptions)\<close>; an undefined source is skipped.\<close>

definition assignOptions :: "CoreOptions \<Rightarrow> CoreOptions option \<Rightarrow> CoreOptions" where
  "assignOptions d customOptions =
     (case customOptions of
        None \<Rightarrow> d
      | Some c \<Rightarrow>
          \<lparr> followRedirect = assignProp (followRedirect d) (followRedirect c),
            rejectUnauthorized = assignProp (rejectUnauthorized d) (rejectUnauthorized c),
            maxRedirects = assignProp (maxRedirects d) (maxRedirects c),
            headers = assignProp (headers d) (headers c),
            httpMethod = assignProp (httpMethod d) (httpMethod c),
            jar = assignProp (jar d) (jar c),
            time = assignProp (time d) (time c),
            timeout = assignProp (timeout d) (timeout c) \<rparr>)"

text \<open>\<^verbatim>\<open>Object.assign({}, a, b)\<close> on header objects: the keys of \<open>a\<close>, then those of \<open>b\<close>.\<close>

fun setHeader :: "string \<Rightarrow> string \<Rightarrow> HttpHeaders \<Rightarrow> HttpHeaders" where
  "setHeader k v [] = [(k, v)]"
| "setHeader k v ((k', v') # hs) =
     (if k' = k then (k, v) # hs else (k', v') # setHeader k v hs)"

definition assignHeaders :: "HttpHeaders \<Rightarrow> HttpHeaders \<Rightarrow> HttpHeaders" where
  "assignHeaders a b = foldl (\<lambda>acc (k, v). setHeader k v acc) a b"

record Requester =
  redirects :: RedirectManager
  maxRedirectsLimit :: int
  options :: CoreOptions

text \<open>
  The constructor. \<open>toLowerCaseKeys\<close> is the helper of @hint/utils, a parameter. The
  fields \<open>redirects\<close>, \<open>maxRedirectsLimit\<close> and \<open>options\<close> are \<^verbatim>\<open>_redirects\<close>,
  \<^verbatim>\<open>_maxRedirects\<close> and \<^verbatim>\<open>_options\<close>. A number is falsy when it is 0.
\<close>

definition constructor :: "(HttpHeaders \<Rightarrow> HttpHeaders) \<Rightarrow> CoreOptions option \<Rightarrow> Requester" where
  "constructor toLowerCaseKeys customOptions =
     (let customOptions' =
            (case customOptions of
               None \<Rightarrow> None
             | Some c \<Rightarrow>
                 (let c1 = c\<lparr> followRedirect := Some False, rejectUnauthorized := Some False \<rparr>
                  in case headers c1 of
                       None \<Rightarrow> Some c1
                     | Some h \<Rightarrow>
                         Some (c1\<lparr> headers := Some (assignHeaders (toLowerCaseKeys defaultHeaders)
                                                      (toLowerCaseKeys h)) \<rparr>)));
          limit =
            (case customOptions of
               None \<Rightarrow> 10
             | Some c \<Rightarrow>
                 (case maxRedirects c of
                    None \<Rightarrow> 10
                  | Some n \<Rightarrow> if n = 0 then 10 else n))
      in \<lparr> redirects = fmempty, maxRedirectsLimit = limit,
           options = assignOptions defaults customOptions' \<rparr>)"

subsection \<open>The transport and the collaborators\<close>

text \<open>
  What the callback of \<^verbatim>\<open>request\<close> receives when there is no error: the status
  code, the response headers (names in lower case), the headers of the request as sent
  (\<^verbatim>\<open>response.request.headers\<close>) and the chunks of the \<^verbatim>\<open>data\<close> events. The
  listener of \<^verbatim>\<open>end\<close> is registered on the incoming message before those of
  \<^verbatim>\<open>request\<close>, so \<^verbatim>\<open>rawBodyResponse\<close> holds the concatenated chunks when
  the callback runs.
\<close>

record Response =
  statusCode :: nat
  incomingHeaders :: HttpHeaders
  sentHeaders :: HttpHeaders
  byteChunks :: "bytes list"

record ContentTypeData =
  ctCharset :: "string option"
  ctMediaType :: "string option"

text \<open>
  The result of \<^verbatim>\<open>parseDataURL\<close>: the MIME type (type, subtype and parameters,
  the names in lower case) and the body.
\<close>

record MIMEType =
  mainType :: string
  subtype :: string
  parameters :: "(string \<times> string) list"

record DataURL =
  mimeType :: MIMEType
  body :: bytes

text \<open>
  \<^verbatim>\<open>mimeType.toString()\<close> serialises the MIME type (WHATWG MIME Sniffing,
  ``serialize a MIME type''): type, slash, subtype, and for every parameter a semicolon,
  the name, an equals sign and the value; a value that is empty or has a code point
  outside the HTTP tokens is put in double quotes, with a backslash before every double
  quote and backslash.
\<close>

definition isHTTPToken :: "char \<Rightarrow> bool" where
  "isHTTPToken c =
     (let n = (of_char c :: nat)
      in (48 \<le> n \<and> n \<le> 57) \<or> (65 \<le> n \<and> n \<le> 90) \<or> (97 \<le> n \<and> n \<le> 122)
         \<or> n \<in> set [33, 35, 36, 37, 38, 39, 42, 43, 45, 46, 94, 95, 96, 124, 126])"

definition serializeValue :: "string \<Rightarrow> string" where
  "serializeValue v =
     (if v \<noteq> [] \<and> list_all isHTTPToken v then v
      else CHR 0x22
           # concat (map (\<lambda>c. if c = CHR 0x22 \<or> c = CHR 0x5C then [CHR 0x5C, c] else [c]) v)
           @ [CHR 0x22])"

definition mimeTypeToString :: "MIMEType \<Rightarrow> string" where
  "mimeTypeToString t =
     mainType t @ ''/'' @ subtype t
     @ concat (map (\<lambda>(name, v). '';'' @ name @ ''='' @ serializeValue v) (parameters t))"

text \<open>
  The collaborators: the library decoders, the configured \<^verbatim>\<open>request\<close> (a transport
  error or a response for a URI; within one call no URI is requested twice, so a function
  of the URI loses nothing), \<^verbatim>\<open>url.resolve\<close>, \<^verbatim>\<open>normalizeHeaderValue\<close>,
  \<^verbatim>\<open>getContentTypeData\<close> (called with a null element), the two functions of
  iconv-lite and \<^verbatim>\<open>parseDataURL\<close> (\<open>None\<close> when it returns null).
\<close>

record collaborators =
  zlib :: codecs
  request :: "string \<Rightarrow> string + Response"
  resolve :: "string \<Rightarrow> string \<Rightarrow> string"
  normalizeHeaderValue :: "HttpHeaders \<Rightarrow> string \<Rightarrow> string option"
  getContentTypeData :: "string \<Rightarrow> HttpHeaders \<Rightarrow> bytes option \<Rightarrow> ContentTypeData"
  encodingExists :: "string \<Rightarrow> bool"
  decode :: "bytes \<Rightarrow> string \<Rightarrow> string"
  parseDataURL :: "string \<Rightarrow> DataURL option"

subsection \<open>NetworkData and the failures of \<^verbatim>\<open>get\<close>\<close>

text \<open>
  \<^verbatim>\<open>body.content\<close> is typed as a string; at run time it is null, a decoded
  string, or (for a data URI) the body buffer itself.
\<close>

datatype content = Null | Text string | Buffer bytes

record NetworkData =
  request_headers :: HttpHeaders
  request_url :: string
  body_content :: content
  body_rawContent :: "bytes option"
  body_rawResponse :: bytes
  charset :: string
  response_headers :: HttpHeaders
  hops :: "string list"
  mediaType :: string
  response_statusCode :: nat
  response_url :: string

text \<open>
  The rejections of \<^verbatim>\<open>get\<close>, under the names of the spec: the object with the
  transport error and the URI, the object for a redirect without location, the message
  of a redirect loop (URI and method), the message of too many redirects (count and
  limit); and the TypeError thrown when the data URI does not parse.
\<close>

datatype error =
    NetworkError string string
  | MissingLocationError string
  | RedirectLoopError string string
  | TooManyRedirectsError int int
  | MalformedDataUriError string

definition validRedirects :: "nat list" where
  "validRedirects = [301, 302, 303, 307, 308]"

text \<open>\<^verbatim>\<open>response.headers.location\<close>, when it is truthy.\<close>

definition location :: "Response \<Rightarrow> string option" where
  "location response =
     (case map_of (incomingHeaders response) ''location'' of
        None \<Rightarrow> None
      | Some l \<Rightarrow> if l = [] then None else Some l)"

text \<open>
  \<^verbatim>\<open>requestedUrls\<close> is a \<^verbatim>\<open>Set\<close>, which keeps insertion order: a list
  without duplicates.
\<close>

definition setAdd :: "string \<Rightarrow> string list \<Rightarrow> string list" where
  "setAdd u us = (if u \<in> set us then us else us @ [u])"

definition getResourceNetworkDataFromDataUri :: "collaborators \<Rightarrow> string \<Rightarrow> error + NetworkData" where
  "getResourceNetworkDataFromDataUri x uri =
     (case parseDataURL x uri of
        None \<Rightarrow> Inl (MalformedDataUriError uri)
      | Some parsedDataURL \<Rightarrow>
          Inr \<lparr> request_headers = [],
                request_url = uri,
                body_content = Buffer (body parsedDataURL),
                body_rawContent = Some (body parsedDataURL),
                body_rawResponse = body parsedDataURL,
                charset = (case map_of (parameters (mimeType parsedDataURL)) ''charset'' of
                             None \<Rightarrow> []
                           | Some c \<Rightarrow> c),
                response_headers = [],
                hops = [],
                mediaType = mimeTypeToString (mimeType parsedDataURL),
                response_statusCode = 200,
                response_url = uri \<rparr>)"

text \<open>
  The terminal part of the callback: \<open>uri\<close> is the argument of \<^verbatim>\<open>get\<close>,
  \<open>uriString\<close> the URI of this request. \<^verbatim>\<open>hops[0] || uriString\<close> takes
  \<open>uriString\<close> when there is no first hop or it is the empty string.
\<close>

definition terminal :: "collaborators \<Rightarrow> Requester \<Rightarrow> string \<Rightarrow> string \<Rightarrow> Response \<Rightarrow> NetworkData" where
  "terminal x this uri uriString response =
     (let rawBodyResponse = concat (byteChunks response);
          contentEncoding = normalizeHeaderValue x (incomingHeaders response) ''content-encoding'';
          rawBody = decompressResponse (zlib x) contentEncoding rawBodyResponse;
          contentTypeData = getContentTypeData x uri (incomingHeaders response) rawBody;
          charset = (case ctCharset contentTypeData of None \<Rightarrow> [] | Some c \<Rightarrow> c);
          mediaType = (case ctMediaType contentTypeData of None \<Rightarrow> [] | Some t \<Rightarrow> t);
          hops = calculate (redirects this) uriString;
          body = (case rawBody of
                    None \<Rightarrow> Null
                  | Some b \<Rightarrow> if encodingExists x charset then Text (decode x b charset) else Null)
      in \<lparr> request_headers = sentHeaders response,
           request_url = (case hops of [] \<Rightarrow> uriString | h # _ \<Rightarrow> if h = [] then uriString else h),
           body_content = body,
           body_rawContent = rawBody,
           body_rawResponse = rawBodyResponse,
           charset = charset,
           response_headers = incomingHeaders response,
           hops = hops,
           mediaType = mediaType,
           response_statusCode = statusCode response,
           response_url = uriString \<rparr>)"


text \<open>The method in the message of a redirect loop: \<^verbatim>\<open>this._options.method || 'GET'\<close>.\<close>

definition requestMethod :: "Requester \<Rightarrow> string" where
  "requestMethod this =
     (case httpMethod (options this) of
        None \<Rightarrow> ''GET''
      | Some m \<Rightarrow> if m = [] then ''GET'' else m)"

text \<open>
  For the termination of \<^verbatim>\<open>getUri\<close>: recording the edge to a URI that was not
  requested yet keeps the walk from the current URI through the requested URIs as it
  was, and the walk from the new URI is one step longer.
\<close>

lemma walk_Cons: "\<exists>r. walk m s x = x # r"
  by (subst walk.simps) simp

lemma walk_takeWhile_upd:
  assumes "n \<notin> V"
  shows "set s' = insert n (set s) \<Longrightarrow>
         length (takeWhile (\<lambda>y. y \<in> V) (walk m s x))
         \<le> length (takeWhile (\<lambda>y. y \<in> insert n V) (walk (fmupd n u m) s' x))"
proof (induction m s x arbitrary: s' rule: walk.induct)
  case (1 m seen x)
  show ?case
  proof (cases "x \<in> V")
    case False
    then show ?thesis by (subst walk.simps) simp
  next
    case True
    then have xn: "x \<noteq> n" using assms by auto
    show ?thesis
    proof (cases "fmlookup m x")
      case None
      with True xn show ?thesis
        by (simp add: walk.simps [of m seen x] walk.simps [of "fmupd n u m" s' x])
    next
      case (Some p)
      show ?thesis
      proof (cases "p \<in> set (x # seen)")
        case True
        with \<open>x \<in> V\<close> xn Some show ?thesis
          by (simp add: walk.simps [of m seen x] walk.simps [of "fmupd n u m" s' x])
      next
        case False
        show ?thesis
        proof (cases "p \<in> V")
          case pV: False
          obtain r where r: "walk m (x # seen) p = p # r"
            using walk_Cons by blast
          with pV \<open>x \<in> V\<close> xn Some False show ?thesis
            by (simp add: walk.simps [of m seen x] walk.simps [of "fmupd n u m" s' x])
        next
          case pV: True
          then have pn: "p \<noteq> n" using assms by auto
          have s': "set (x # s') = insert n (set (x # seen))"
            using "1.prems" by auto
          have p': "p \<notin> set (x # s')"
            using False pn "1.prems" by auto
          from "1.IH" [OF Some False s'] \<open>x \<in> V\<close> xn Some False p'
          show ?thesis
            by (simp add: walk.simps [of m seen x] walk.simps [of "fmupd n u m" s' x])
        qed
      qed
    qed
  qed
qed

text \<open>
  \<^verbatim>\<open>getUri\<close>, the closure inside \<^verbatim>\<open>get\<close>, with what it captures as
  arguments: \<open>uri\<close> is the argument of \<^verbatim>\<open>get\<close>, \<open>this\<close> the instance,
  \<open>requestedUrls\<close> the set of the call. It returns the settled promise, the instance
  and the set as the call leaves them. A call records an edge before it counts the
  redirects that lead to the target, and it recurses only while the count is within the
  maximum; the count grows with every new URI, which bounds the recursion.
\<close>

function getUri :: "collaborators \<Rightarrow> string \<Rightarrow> Requester \<Rightarrow> string list \<Rightarrow> string
                    \<Rightarrow> (error + NetworkData) \<times> Requester \<times> string list" where
  "getUri x uri this requestedUrls uriString =
     (let requestedUrls' = setAdd uriString requestedUrls
      in case request x uriString of
           Inl err \<Rightarrow> (Inl (NetworkError uriString err), this, requestedUrls')
         | Inr response \<Rightarrow>
             if statusCode response \<in> set validRedirects then
               (case location response of
                  None \<Rightarrow> (Inl (MissingLocationError uriString), this, requestedUrls')
                | Some loc \<Rightarrow>
                    (let newUri = resolve x uriString loc
                     in if newUri \<in> set requestedUrls' then
                          (Inl (RedirectLoopError uriString (requestMethod this)),
                           this, requestedUrls')
                        else
                          (let this' = this\<lparr> redirects := add newUri uriString (redirects this) \<rparr>;
                               currentRedirectNumber = int (length (calculate (redirects this') newUri))
                           in if currentRedirectNumber > maxRedirectsLimit this then
                                (Inl (TooManyRedirectsError currentRedirectNumber (maxRedirectsLimit this)),
                                 this', requestedUrls')
                              else getUri x uri this' requestedUrls' newUri)))
             else (Inr (terminal x this uri uriString response), this, requestedUrls'))"
  by pat_completeness auto
termination
proof (relation "measure (\<lambda>(x, uri, this, requestedUrls, uriString).
           nat (maxRedirectsLimit this + 2)
           - length (takeWhile (\<lambda>y. y \<in> insert uriString (set requestedUrls))
                       (walk (redirects this) [] uriString)))")
  show "wf (measure (\<lambda>(x :: collaborators, uri :: string, this, requestedUrls, uriString).
           nat (maxRedirectsLimit this + 2)
           - length (takeWhile (\<lambda>y. y \<in> insert uriString (set requestedUrls))
                       (walk (redirects this) [] uriString))))"
    by simp
next
  fix x :: collaborators and uri :: string and this this' :: Requester
    and requestedUrls requestedUrls' :: "string list" and uriString loc newUri :: string
    and response :: Response and currentRedirectNumber :: int
  assume r: "requestedUrls' = setAdd uriString requestedUrls"
    and n: "newUri = resolve x uriString loc"
    and new: "newUri \<notin> set requestedUrls'"
    and t: "this' = this\<lparr> redirects := add newUri uriString (redirects this) \<rparr>"
    and c: "currentRedirectNumber = int (length (calculate (redirects this') newUri))"
    and le: "\<not> maxRedirectsLimit this < currentRedirectNumber"
  let ?V = "insert uriString (set requestedUrls)"
  let ?m = "redirects this"
  let ?m' = "fmupd newUri uriString ?m"
  have V: "set requestedUrls' = ?V"
    by (auto simp: r setAdd_def)
  with new have nV: "newUri \<notin> ?V" by simp
  then have ne: "uriString \<noteq> newUri" by auto
  have step: "walk ?m' [] newUri = newUri # walk ?m' [newUri] uriString"
    using ne by (subst walk.simps) simp
  have "length (takeWhile (\<lambda>y. y \<in> ?V) (walk ?m [] uriString))
        \<le> length (takeWhile (\<lambda>y. y \<in> insert newUri ?V) (walk ?m' [newUri] uriString))"
    by (rule walk_takeWhile_upd [OF nV]) simp
  then have grow: "length (takeWhile (\<lambda>y. y \<in> ?V) (walk ?m [] uriString))
        < length (takeWhile (\<lambda>y. y \<in> insert newUri ?V) (walk ?m' [] newUri))"
    by (simp add: step)
  have "length (takeWhile (\<lambda>y. y \<in> insert newUri ?V) (walk ?m' [] newUri))
        \<le> length (walk ?m' [] newUri)"
    by (rule length_takeWhile_le)
  also have "int (length (walk ?m' [] newUri)) \<le> maxRedirectsLimit this + 1"
    using le by (simp add: c t calculate_def add_def step)
  finally have bound: "int (length (takeWhile (\<lambda>y. y \<in> insert newUri ?V) (walk ?m' [] newUri)))
        \<le> maxRedirectsLimit this + 1"
    by simp
  from grow bound
  show "((x, uri, this', requestedUrls', newUri), x, uri, this, requestedUrls, uriString)
        \<in> measure (\<lambda>(x, uri, this, requestedUrls, uriString).
           nat (maxRedirectsLimit this + 2)
           - length (takeWhile (\<lambda>y. y \<in> insert uriString (set requestedUrls))
                       (walk (redirects this) [] uriString)))"
    by (simp add: t add_def V insert_commute)
qed

declare getUri.simps [simp del]

text \<open>
  \<^verbatim>\<open>get\<close>. The result is the settled promise, the instance after the call and
  the set \<^verbatim>\<open>requestedUrls\<close> at the end, which lists the requests issued in order.
  A data URI parsed to null makes \<^verbatim>\<open>get\<close> throw.
\<close>

definition get :: "collaborators \<Rightarrow> Requester \<Rightarrow> string
                   \<Rightarrow> (error + NetworkData) \<times> Requester \<times> string list" where
  "get x this uri =
     (if startsWith uri ''data:'' then (getResourceNetworkDataFromDataUri x uri, this, [])
      else getUri x uri this [] uri)"

definition getRedirects :: "Requester \<Rightarrow> string \<Rightarrow> string list" where
  "getRedirects this uri = calculate (redirects this) uri"

subsection \<open>Concrete collaborators for evaluation\<close>

text \<open>
  An instance of the four decoders on which the cascade can be run: each format is a
  fixed header in front of the stored payload (for gzip and zlib the magic numbers of the
  formats), and a decoder fails on a buffer that does not start with its header.
\<close>

definition unframe :: "bytes \<Rightarrow> decompressor" where
  "unframe header buff =
     (if take (length header) buff = header then Some (drop (length header) buff) else None)"

definition framedCodecs :: codecs where
  "framedCodecs =
     \<lparr> decompressBrotli = unframe [0xCE, 0xB2],
       decompressGzip = unframe [0x1F, 0x8B],
       inflateAsync = unframe [0x78, 0x9C],
       inflateRawAsync = unframe [0x01] \<rparr>"

definition ascii :: "string \<Rightarrow> bytes" where
  "ascii s = map (\<lambda>c. of_nat (of_char c)) s"

text \<open>
  A server that answers 302 with a location, one that answers 200 with headers and the
  chunks of a body, and collaborators around a server: absolute locations, the header
  value as it is, a content type resolver that answers a fixed charset \<open>cs\<close>, a charset
  decoder that knows utf-8 and reads one character per byte, and a data URI parser that
  has the parse of \<^verbatim>\<open>data:text/plain;charset=utf-8,Hello\<close> (type text, subtype
  plain, the parameter charset=utf-8, the body Hello) and returns null for every other
  URI.
\<close>

definition redirectTo :: "string \<Rightarrow> Response" where
  "redirectTo target =
     \<lparr> statusCode = 302, incomingHeaders = [(''location'', target)],
       sentHeaders = defaultHeaders, byteChunks = [] \<rparr>"

definition page :: "HttpHeaders \<Rightarrow> bytes list \<Rightarrow> Response" where
  "page hs chunks =
     \<lparr> statusCode = 200, incomingHeaders = hs, sentHeaders = defaultHeaders,
       byteChunks = chunks \<rparr>"

definition testCollaborators :: "(string \<Rightarrow> string + Response) \<Rightarrow> string \<Rightarrow> collaborators" where
  "testCollaborators server cs =
     \<lparr> zlib = framedCodecs,
       request = server,
       resolve = (\<lambda>base loc. loc),
       normalizeHeaderValue = (\<lambda>hs name. map_of hs name),
       getContentTypeData = (\<lambda>uri hs raw. \<lparr> ctCharset = Some cs, ctMediaType = Some ''text/html'' \<rparr>),
       encodingExists = (\<lambda>c. c = ''utf-8''),
       decode = (\<lambda>b c. map (\<lambda>w. char_of (unat w)) b),
       parseDataURL =
         (\<lambda>u. if u = ''data:text/plain;charset=utf-8,Hello''
               then Some \<lparr> mimeType = \<lparr> mainType = ''text'', subtype = ''plain'',
                                          parameters = [(''charset'', ''utf-8'')] \<rparr>,
                           body = ascii ''Hello'' \<rparr>
               else None) \<rparr>"

text \<open>The cycle A \<open>\<rightarrow>\<close> B \<open>\<rightarrow>\<close> A.\<close>

definition loopServer :: "string \<Rightarrow> string + Response" where
  "loopServer u =
     (if u = ''http://a/'' then Inr (redirectTo ''http://b/'')
      else if u = ''http://b/'' then Inr (redirectTo ''http://a/'')
      else Inl ''ENOTFOUND'')"

text \<open>
  A chain of \<open>n\<close> redirects from \<^verbatim>\<open>http://h/\<close>: every URI shorter than \<open>9 + n\<close>
  characters redirects to itself with one more character, the others answer 200.
\<close>

definition chainServer :: "nat \<Rightarrow> string \<Rightarrow> string + Response" where
  "chainServer n u =
     (if length u < 9 + n then Inr (redirectTo (u @ ''+''))
      else Inr (page [] [ascii ''end'']))"

text \<open>A server that redirects without a location, and one that cannot be reached.\<close>

definition bareRedirectServer :: "string \<Rightarrow> string + Response" where
  "bareRedirectServer u =
     Inr \<lparr> statusCode = 301, incomingHeaders = [], sentHeaders = defaultHeaders,
           byteChunks = [] \<rparr>"

definition downServer :: "string \<Rightarrow> string + Response" where
  "downServer u = Inl ''ECONNREFUSED''"

text \<open>A server without redirects.\<close>

definition pageServer :: "HttpHeaders \<Rightarrow> bytes list \<Rightarrow> string \<Rightarrow> string + Response" where
  "pageServer hs chunks u = Inr (page hs chunks)"

section \<open>Properties\<close>

subsection \<open>The cascade\<close>

lemma join_split_comma: "join_comma (split_comma s) = s"
proof (induction s)
  case Nil
  show ?case by simp
next
  case (Cons c cs)
  obtain t ts where ts: "split_comma cs = t # ts"
    using split_comma_not_Nil [of cs] by (cases "split_comma cs") auto
  show ?case
  proof (cases "c = CHR '',''")
    case True
    with Cons ts show ?thesis by simp
  next
    case False
    with Cons ts show ?thesis by (cases ts) simp_all
  qed
qed

lemma split_comma_no_comma: "CHR '','' \<notin> set t \<Longrightarrow> split_comma t = [t]"
  by (induction t) auto

lemma split_comma_append:
  "CHR '','' \<notin> set t \<Longrightarrow> split_comma (t @ CHR '','' # rest) = t # split_comma rest"
  by (induction t) auto

lemma dropWhile_fixed: "xs = [] \<or> \<not> P (hd xs) \<Longrightarrow> dropWhile P xs = xs"
  by (cases xs) auto

lemma trim_idem: "trim (trim s) = trim s"
proof -
  define s1 where "s1 = dropWhile isWhiteSpace s"
  define d where "d = dropWhile isWhiteSpace (rev s1)"
  have t: "trim s = rev d"
    by (simp add: trim_def s1_def d_def)
  have d_fixed: "dropWhile isWhiteSpace d = d"
    unfolding d_def by (rule dropWhile_idem)
  have "takeWhile isWhiteSpace (rev s1) @ d = rev s1"
    unfolding d_def by (rule takeWhile_dropWhile_id)
  then have "rev (takeWhile isWhiteSpace (rev s1) @ d) = s1"
    by simp
  then have pre: "s1 = rev d @ rev (takeWhile isWhiteSpace (rev s1))"
    by simp
  have s1_hd: "s1 = [] \<or> \<not> isWhiteSpace (hd s1)"
    unfolding s1_def using hd_dropWhile [of isWhiteSpace s] by blast
  have "rev d = [] \<or> \<not> isWhiteSpace (hd (rev d))"
  proof (cases "rev d = []")
    case True
    then show ?thesis by simp
  next
    case False
    then have "hd s1 = hd (rev d)" and "s1 \<noteq> []"
      using pre by (metis hd_append2, metis append_is_Nil_conv)
    with s1_hd show ?thesis by simp
  qed
  then have "dropWhile isWhiteSpace (rev d) = rev d"
    by (rule dropWhile_fixed)
  then have "trim (rev d) = rev d"
    by (simp add: trim_def d_fixed)
  then show ?thesis by (simp add: t)
qed

lemma identity_in_slice:
  "n \<le> 3 \<Longrightarrow> identity \<in> set (slice [a, b, c, identity] (Number n))"
  by (cases n rule: nat.exhaust; simp; cases "n - 1"; simp; cases "n - 2"; simp)

lemma identity_in_decompressors: "identity \<in> set (decompressors z algorithm)"
proof -
  have p: "priorities name = Undefined \<or> priorities name = Inherited
           \<or> (\<exists>n \<le> 3. priorities name = Number n)" for name
    by (simp add: priorities_def)
  let ?fs = "[decompressBrotli z, decompressGzip z, inflate z, identity]"
  have "identity \<in> set (slice ?fs (priorities name))" for name
    using p [of name] identity_in_slice [of _ "decompressBrotli z" "decompressGzip z" "inflate z"]
    by auto
  then show ?thesis
    by (simp add: decompressors_def Let_def)
qed

lemma decompressLoop_identity:
  "identity \<in> set ds \<Longrightarrow> \<exists>b. decompressLoop ds raw = Some b"
  by (induction ds) (auto simp: tryToDecompress_def identity_def split: option.splits)

lemma decompressResponse_Some: "\<exists>b. decompressResponse z contentEncoding raw = Some b"
proof (induction z contentEncoding raw rule: decompressResponse.induct)
  case (1 z contentEncoding rawBodyResponse)
  let ?algs = "case contentEncoding of None \<Rightarrow> [[]]
               | Some s \<Rightarrow> if s = [] then [[]] else split_comma s"
  have "?algs \<noteq> []"
    using split_comma_not_Nil by (auto split: option.splits)
  then obtain a as where algs: "?algs = a # as"
    by (cases ?algs) auto
  obtain b where b: "decompressLoop (decompressors z (trim a)) rawBodyResponse = Some b"
    using decompressLoop_identity [OF identity_in_decompressors] by blast
  show ?case
  proof (cases "as = []")
    case True
    with algs b show ?thesis
      by (subst decompressResponse.simps) simp
  next
    case False
    from "1.IH" [OF algs b False] obtain c
      where "decompressResponse z (Some (join_comma as)) b = Some c" by blast
    with algs b False show ?thesis
      by (subst decompressResponse.simps) simp
  qed
qed

text \<open>One step of the recursion: the first token is decoded, the tail is the new declaration.\<close>

lemma decompressResponse_single:
  assumes "CHR '','' \<notin> set t"
  shows "decompressResponse z (Some t) raw = decompressLoop (decompressors z (trim t)) raw"
proof -
  have algs: "(if t = [] then [[]] else split_comma t) = [t]"
    using assms by (simp add: split_comma_no_comma)
  obtain b where b: "decompressLoop (decompressors z (trim t)) raw = Some b"
    using decompressLoop_identity [OF identity_in_decompressors] by blast
  show ?thesis
    by (subst decompressResponse.simps) (simp add: algs b)
qed

lemma decompressResponse_first_token:
  assumes "CHR '','' \<notin> set t"
  shows "decompressResponse z (Some (t @ CHR '','' # rest)) raw =
           (case decompressLoop (decompressors z (trim t)) raw of
              None \<Rightarrow> None
            | Some rawBody \<Rightarrow> decompressResponse z (Some rest) rawBody)"
proof -
  have sp: "split_comma (t @ CHR '','' # rest) = t # split_comma rest"
    using assms by (rule split_comma_append)
  show ?thesis
    by (subst decompressResponse.simps)
       (simp add: sp split_comma_not_Nil join_split_comma split: option.splits)
qed

text \<open>
  C1. The spec asks that a declaration of several tokens be undone from the right, so
  that \<^verbatim>\<open>gzip, br\<close> on bytes that were gzip-compressed and then brotli-compressed
  gives back the original bytes. \<^verbatim>\<open>decompressResponse\<close> takes the tokens from the
  left: on such bytes the cascade for \<^verbatim>\<open>gzip\<close> runs first on the brotli stream,
  where gunzip and inflate fail and the identity copies it; the cascade for \<^verbatim>\<open>br\<close>
  then undoes brotli, and the result is the inner gzip stream, still compressed.
\<close>

theorem decompressResponse_gzip_br:
  assumes "decompressGzip z wire = None"
    and "inflate z wire = None"
    and "decompressBrotli z wire = Some inner"
  shows "decompressResponse z (Some ''gzip, br'') wire = Some inner"
proof -
  have t1: "trim ''gzip'' = ''gzip''" and t2: "trim '' br'' = ''br''"
    and t3: "trim ''br'' = ''br''"
    by (simp_all add: trim_def isWhiteSpace_def)
  have first: "decompressLoop (decompressors z (trim ''gzip'')) wire = Some wire"
    using assms(1,2)
    by (simp add: t1 decompressors_def priorities_def tryToDecompress_def identity_def)
  have second: "decompressLoop (decompressors z (trim '' br'')) wire = Some inner"
    using assms(3)
    by (simp add: t2 t3 decompressors_def priorities_def tryToDecompress_def)
  have "decompressResponse z (Some (''gzip'' @ CHR '','' # '' br'')) wire
        = decompressResponse z (Some '' br'') wire"
    by (subst decompressResponse_first_token) (simp_all add: first)
  also have "\<dots> = Some inner"
    by (subst decompressResponse_single) (simp_all add: second)
  finally show ?thesis by simp
qed

theorem decompressResponse_gzip_br_witness:
  "decompressGzip framedCodecs ([0xCE, 0xB2, 0x1F, 0x8B] @ ascii ''Hello'') = None
   \<and> inflate framedCodecs ([0xCE, 0xB2, 0x1F, 0x8B] @ ascii ''Hello'') = None
   \<and> decompressBrotli framedCodecs ([0xCE, 0xB2, 0x1F, 0x8B] @ ascii ''Hello'')
       = Some ([0x1F, 0x8B] @ ascii ''Hello'')
   \<and> decompressGzip framedCodecs ([0x1F, 0x8B] @ ascii ''Hello'') = Some (ascii ''Hello'')
   \<and> decompressResponse framedCodecs (Some ''gzip, br'') ([0xCE, 0xB2, 0x1F, 0x8B] @ ascii ''Hello'')
       = Some ([0x1F, 0x8B] @ ascii ''Hello'')
   \<and> [0x1F, 0x8B] @ ascii ''Hello'' \<noteq> ascii ''Hello''"
proof -
  have a: "decompressGzip framedCodecs ([0xCE, 0xB2, 0x1F, 0x8B] @ ascii ''Hello'') = None"
    by (simp add: framedCodecs_def unframe_def)
  have b: "inflate framedCodecs ([0xCE, 0xB2, 0x1F, 0x8B] @ ascii ''Hello'') = None"
    by (simp add: framedCodecs_def unframe_def inflate_def)
  have c: "decompressBrotli framedCodecs ([0xCE, 0xB2, 0x1F, 0x8B] @ ascii ''Hello'')
           = Some ([0x1F, 0x8B] @ ascii ''Hello'')"
    by (simp add: framedCodecs_def unframe_def)
  have d: "decompressGzip framedCodecs ([0x1F, 0x8B] @ ascii ''Hello'') = Some (ascii ''Hello'')"
    by (simp add: framedCodecs_def unframe_def)
  show ?thesis
    using decompressResponse_gzip_br [OF a b c] a b c d by simp
qed

text \<open>
  A single token whose lookup in \<^verbatim>\<open>priorities\<close> is undefined gives an
  identity copy, and bytes that are gzip-compressed under a declared \<^verbatim>\<open>br\<close>
  are decoded by the gzip fallback.
\<close>

lemma decompressResponse_unrecognized:
  assumes "CHR '','' \<notin> set t" and "priorities (trim t) = Undefined"
  shows "decompressResponse z (Some t) raw = Some raw"
  using assms
  by (simp add: decompressResponse_single decompressors_def trim_idem Let_def priorities_def
                tryToDecompress_def identity_def)

lemma decompressResponse_br_fallback:
  assumes "decompressBrotli z raw = None" and "decompressGzip z raw = Some plain"
  shows "decompressResponse z (Some ''br'') raw = Some plain"
proof -
  have t: "trim ''br'' = ''br''"
    by (simp add: trim_def isWhiteSpace_def)
  show ?thesis
    using assms
    by (subst decompressResponse_single)
       (simp_all add: t decompressors_def priorities_def tryToDecompress_def)
qed

text \<open>
  C2. An unrecognized token is meant to start the cascade at the identity (``in case of
  an algorithm not defined by us''). The test is \<^verbatim>\<open>typeof priorities[token] ===
  'undefined'\<close> on an object literal, so a token that names a property inherited from
  \<^verbatim>\<open>Object.prototype\<close> is not taken for unknown: for \<^verbatim>\<open>constructor\<close> the
  priority is a function, \<^verbatim>\<open>slice\<close> starts at 0 and the cascade starts at brotli.
  Gzip-compressed bytes declared as \<^verbatim>\<open>constructor\<close> come back decompressed instead
  of copied.
\<close>

theorem decompressResponse_constructor:
  assumes "decompressBrotli z raw = None" and "decompressGzip z raw = Some plain"
  shows "decompressResponse z (Some ''constructor'') raw = Some plain"
proof -
  have t: "trim ''constructor'' = ''constructor''"
    by (simp add: trim_def isWhiteSpace_def)
  have p: "priorities ''constructor'' = Inherited"
    by (simp add: priorities_def objectPrototypeKeys_def)
  show ?thesis
    using assms
    by (subst decompressResponse_single)
       (simp_all add: t p decompressors_def tryToDecompress_def)
qed

theorem decompressResponse_constructor_witness:
  "decompressBrotli framedCodecs ([0x1F, 0x8B] @ ascii ''Hello'') = None
   \<and> decompressGzip framedCodecs ([0x1F, 0x8B] @ ascii ''Hello'') = Some (ascii ''Hello'')
   \<and> decompressResponse framedCodecs (Some ''constructor'') ([0x1F, 0x8B] @ ascii ''Hello'')
       = Some (ascii ''Hello'')
   \<and> ascii ''Hello'' \<noteq> [0x1F, 0x8B] @ ascii ''Hello''"
proof -
  have a: "decompressBrotli framedCodecs ([0x1F, 0x8B] @ ascii ''Hello'') = None"
    by (simp add: framedCodecs_def unframe_def)
  have b: "decompressGzip framedCodecs ([0x1F, 0x8B] @ ascii ''Hello'') = Some (ascii ''Hello'')"
    by (simp add: framedCodecs_def unframe_def)
  show ?thesis
    using decompressResponse_constructor [OF a b] a b by simp
qed

subsection \<open>Construction\<close>

text \<open>With a configuration, both options are forced, whatever the caller set.\<close>

lemma constructor_forces_options:
  "followRedirect (options (constructor toLowerCaseKeys (Some c))) = Some False
   \<and> rejectUnauthorized (options (constructor toLowerCaseKeys (Some c))) = Some False"
  by (simp add: constructor_def assignOptions_def assignProp_def Let_def split: option.splits)

text \<open>
  C9. The spec asks that redirect following be disabled and certificate verification
  be turned off whatever the caller supplies, also when no configuration is supplied.
  \<^verbatim>\<open>rejectUnauthorized\<close> is set to false only inside \<^verbatim>\<open>if (customOptions)\<close>
  and is not among the defaults: constructed without a configuration, the instance has
  the defaults as its options, with redirect following disabled and
  \<^verbatim>\<open>rejectUnauthorized\<close> not set, which leaves certificate verification on.
\<close>

theorem constructor_without_options:
  "options (constructor toLowerCaseKeys None) = defaults
   \<and> followRedirect (options (constructor toLowerCaseKeys None)) = Some False
   \<and> rejectUnauthorized (options (constructor toLowerCaseKeys None)) = None"
  by (simp add: constructor_def assignOptions_def defaults_def)

text \<open>
  C10. \<^verbatim>\<open>customOptions.maxRedirects || this._maxRedirects\<close>: a configured maximum
  of 0 is falsy and the instance keeps the default of 10; any other configured value is
  used as given.
\<close>

theorem constructor_maxRedirects:
  assumes "maxRedirects c = Some n"
  shows "maxRedirectsLimit (constructor toLowerCaseKeys (Some c)) = (if n = 0 then 10 else n)"
  using assms by (simp add: constructor_def Let_def)


subsection \<open>Data URIs\<close>


subsection \<open>The recursion of \<^verbatim>\<open>getUri\<close>\<close>

lemma getUri_induct [case_names step]:
  fixes x :: collaborators and this :: Requester
    and P :: "Requester \<Rightarrow> string list \<Rightarrow> string \<Rightarrow> bool"
  assumes "\<And>this requestedUrls uriString.
             (\<And>response loc.
                 request x uriString = Inr response \<Longrightarrow>
                 statusCode response \<in> set validRedirects \<Longrightarrow>
                 location response = Some loc \<Longrightarrow>
                 resolve x uriString loc \<notin> set (setAdd uriString requestedUrls) \<Longrightarrow>
                 \<not> maxRedirectsLimit this
                    < int (length (calculate (add (resolve x uriString loc) uriString (redirects this))
                                     (resolve x uriString loc))) \<Longrightarrow>
                 P (this\<lparr> redirects := add (resolve x uriString loc) uriString (redirects this) \<rparr>)
                   (setAdd uriString requestedUrls) (resolve x uriString loc)) \<Longrightarrow>
             P this requestedUrls uriString"
  shows "P this requestedUrls uriString"
proof -
  have "x' = x \<longrightarrow> P this requestedUrls uriString" for x' :: collaborators and uri :: string
  proof (induction x' uri this requestedUrls uriString rule: getUri.induct)
    case (1 x' uri this requestedUrls uriString)
    show ?case
    proof
      assume eq: "x' = x"
      show "P this requestedUrls uriString"
      proof (rule assms)
        fix response loc
        assume a: "request x uriString = Inr response"
          "statusCode response \<in> set validRedirects"
          "location response = Some loc"
          "resolve x uriString loc \<notin> set (setAdd uriString requestedUrls)"
          "\<not> maxRedirectsLimit this
             < int (length (calculate (add (resolve x uriString loc) uriString (redirects this))
                              (resolve x uriString loc)))"
        from "1.IH" [OF refl _ a(2) a(3) refl _ refl refl] a(1,4,5) eq
        show "P (this\<lparr> redirects := add (resolve x uriString loc) uriString (redirects this) \<rparr>)
                (setAdd uriString requestedUrls) (resolve x uriString loc)"
          by simp
      qed
    qed
  qed
  then show ?thesis by simp
qed

lemma getUri_cases [case_names network terminal missing loop toomany follow]:
  fixes x uri this requestedUrls uriString
  defines "visited \<equiv> setAdd uriString requestedUrls"
  obtains
    err where "request x uriString = Inl err"
      and "getUri x uri this requestedUrls uriString = (Inl (NetworkError uriString err), this, visited)"
  | response where "request x uriString = Inr response"
      and "statusCode response \<notin> set validRedirects"
      and "getUri x uri this requestedUrls uriString
           = (Inr (terminal x this uri uriString response), this, visited)"
  | response where "request x uriString = Inr response"
      and "statusCode response \<in> set validRedirects"
      and "location response = None"
      and "getUri x uri this requestedUrls uriString
           = (Inl (MissingLocationError uriString), this, visited)"
  | response loc where "request x uriString = Inr response"
      and "statusCode response \<in> set validRedirects"
      and "location response = Some loc"
      and "resolve x uriString loc \<in> set visited"
      and "getUri x uri this requestedUrls uriString
           = (Inl (RedirectLoopError uriString (requestMethod this)), this, visited)"
  | response loc where "request x uriString = Inr response"
      and "statusCode response \<in> set validRedirects"
      and "location response = Some loc"
      and "resolve x uriString loc \<notin> set visited"
      and "maxRedirectsLimit this
           < int (length (calculate (add (resolve x uriString loc) uriString (redirects this))
                            (resolve x uriString loc)))"
      and "getUri x uri this requestedUrls uriString
           = (Inl (TooManyRedirectsError
                     (int (length (calculate (add (resolve x uriString loc) uriString (redirects this))
                                     (resolve x uriString loc))))
                     (maxRedirectsLimit this)),
              this\<lparr> redirects := add (resolve x uriString loc) uriString (redirects this) \<rparr>,
              visited)"
  | response loc where "request x uriString = Inr response"
      and "statusCode response \<in> set validRedirects"
      and "location response = Some loc"
      and "resolve x uriString loc \<notin> set visited"
      and "\<not> maxRedirectsLimit this
             < int (length (calculate (add (resolve x uriString loc) uriString (redirects this))
                              (resolve x uriString loc)))"
      and "getUri x uri this requestedUrls uriString
           = getUri x uri (this\<lparr> redirects := add (resolve x uriString loc) uriString (redirects this) \<rparr>)
               visited (resolve x uriString loc)"
proof (cases "request x uriString")
  case (Inl err)
  then show ?thesis
    using that(1) by (simp add: getUri.simps [of x uri this requestedUrls uriString] visited_def)
next
  case (Inr response)
  show ?thesis
  proof (cases "statusCode response \<in> set validRedirects")
    case False
    with Inr show ?thesis
      using that(2) by (simp add: getUri.simps [of x uri this requestedUrls uriString] visited_def)
  next
    case True
    show ?thesis
    proof (cases "location response")
      case None
      with Inr True show ?thesis
        using that(3) by (simp add: getUri.simps [of x uri this requestedUrls uriString] visited_def)
    next
      case (Some loc)
      show ?thesis
      proof (cases "resolve x uriString loc \<in> set visited")
        case True
        with Inr \<open>statusCode response \<in> set validRedirects\<close> Some show ?thesis
          using that(4) [of response loc]
          by (simp add: getUri.simps [of x uri this requestedUrls uriString] visited_def)
      next
        case False
        show ?thesis
        proof (cases "maxRedirectsLimit this
           < int (length (calculate (add (resolve x uriString loc) uriString (redirects this))
                            (resolve x uriString loc)))")
          case True
          with Inr \<open>statusCode response \<in> set validRedirects\<close> Some False show ?thesis
            using that(5) [of response loc]
            by (simp add: getUri.simps [of x uri this requestedUrls uriString] visited_def Let_def)
        next
          case notgt: False
          with Inr \<open>statusCode response \<in> set validRedirects\<close> Some False show ?thesis
            using that(6) [of response loc]
            by (simp add: getUri.simps [of x uri this requestedUrls uriString] visited_def Let_def)
        qed
      qed
    qed
  qed
qed

lemma setAdd_new: "u \<notin> set us \<Longrightarrow> setAdd u us = us @ [u]"
  by (simp add: setAdd_def)

text \<open>
  What a call returns is decided by the answer to the last request it issued; the URIs
  requested extend the set the call started with, and only the redirects of the instance
  change.
\<close>

lemma getUri_outcome:
  fixes x :: collaborators
  assumes "uriString \<notin> set requestedUrls"
    and "getUri x uri this requestedUrls uriString = (res, this', log)"
  shows "(\<exists>ext. log = requestedUrls @ uriString # ext)
         \<and> options this' = options this
         \<and> maxRedirectsLimit this' = maxRedirectsLimit this
         \<and> (case request x (last log) of
               Inl err \<Rightarrow> res = Inl (NetworkError (last log) err)
             | Inr response \<Rightarrow>
                 if statusCode response \<in> set validRedirects then
                   (case location response of
                      None \<Rightarrow> res = Inl (MissingLocationError (last log))
                    | Some loc \<Rightarrow>
                        if resolve x (last log) loc \<in> set log then
                          res = Inl (RedirectLoopError (last log) (requestMethod this))
                        else
                          res = Inl (TooManyRedirectsError
                                       (int (length (calculate (redirects this') (resolve x (last log) loc))))
                                       (maxRedirectsLimit this))
                          \<and> maxRedirectsLimit this
                              < int (length (calculate (redirects this') (resolve x (last log) loc)))
                          \<and> fmlookup (redirects this') (resolve x (last log) loc) = Some (last log))
                 else res = Inr (terminal x this' uri (last log) response))"
  using assms
proof (induction this requestedUrls uriString arbitrary: res this' log rule: getUri_induct [of x])
  case (step this requestedUrls uriString)
  have v: "setAdd uriString requestedUrls = requestedUrls @ [uriString]"
    using step.prems(1) by (rule setAdd_new)
  show ?case
  proof (cases rule: getUri_cases [where x = x and uri = uri and this = this
                 and requestedUrls = requestedUrls and uriString = uriString])
    case (network err)
    from step.prems(2) network(2) have "res = Inl (NetworkError uriString err)"
      and "this' = this" and "log = requestedUrls @ [uriString]"
      by (auto simp: v)
    with network(1) show ?thesis by simp
  next
    case (terminal response)
    from step.prems(2) terminal(3) have "res = Inr (terminal x this uri uriString response)"
      and "this' = this" and "log = requestedUrls @ [uriString]"
      by (auto simp: v)
    with terminal(1,2) show ?thesis by simp
  next
    case (missing response)
    from step.prems(2) missing(4) have "res = Inl (MissingLocationError uriString)"
      and "this' = this" and "log = requestedUrls @ [uriString]"
      by (auto simp: v)
    with missing(1,2,3) show ?thesis by simp
  next
    case (loop response loc)
    from step.prems(2) loop(5) have "res = Inl (RedirectLoopError uriString (requestMethod this))"
      and "this' = this" and "log = requestedUrls @ [uriString]"
      by (auto simp: v)
    with loop(1,2,3,4) show ?thesis by (simp add: v)
  next
    case (toomany response loc)
    let ?n = "resolve x uriString loc"
    from step.prems(2) toomany(6)
    have "res = Inl (TooManyRedirectsError
                       (int (length (calculate (add ?n uriString (redirects this)) ?n)))
                       (maxRedirectsLimit this))"
      and "this' = this\<lparr> redirects := add ?n uriString (redirects this) \<rparr>"
      and "log = requestedUrls @ [uriString]"
      by (auto simp: v)
    with toomany(1,2,3,4,5) show ?thesis by (simp add: v add_def)
  next
    case (follow response loc)
    let ?n = "resolve x uriString loc"
    let ?t = "this\<lparr> redirects := add ?n uriString (redirects this) \<rparr>"
    have new: "?n \<notin> set (setAdd uriString requestedUrls)"
      using follow(4) .
    have call: "getUri x uri ?t (setAdd uriString requestedUrls) ?n = (res, this', log)"
      using follow(6) step.prems(2) by simp
    from step.IH [OF follow(1) follow(2) follow(3) follow(4) follow(5) new call]
    show ?thesis
      by (auto simp: v requestMethod_def split: sum.splits option.splits if_splits)
  qed
qed

text \<open>No URI is requested twice in one call.\<close>

lemma getUri_distinct:
  fixes x :: collaborators
  assumes "distinct (requestedUrls @ [uriString])"
    and "getUri x uri this requestedUrls uriString = (res, this', log)"
  shows "distinct log"
  using assms
proof (induction this requestedUrls uriString arbitrary: res this' log rule: getUri_induct [of x])
  case (step this requestedUrls uriString)
  have v: "setAdd uriString requestedUrls = requestedUrls @ [uriString]"
    using step.prems(1) by (simp add: setAdd_new)
  show ?case
  proof (cases rule: getUri_cases [where x = x and uri = uri and this = this
                 and requestedUrls = requestedUrls and uriString = uriString])
    case (follow response loc)
    have d: "distinct (setAdd uriString requestedUrls @ [resolve x uriString loc])"
      using step.prems(1) follow(4) by (auto simp: v)
    have call: "getUri x uri (this\<lparr> redirects := add (resolve x uriString loc) uriString (redirects this) \<rparr>)
                  (setAdd uriString requestedUrls) (resolve x uriString loc) = (res, this', log)"
      using follow(6) step.prems(2) by simp
    show ?thesis
      by (rule step.IH [OF follow(1-5) d call])
  qed (use step.prems v in auto)
qed

subsection \<open>The redirect chain of one call\<close>

lemma chained_append:
  "chained m p (xs @ ys)
   = (chained m p xs \<and> chained m (if xs = [] then p else Some (last xs)) ys)"
  by (induction xs arbitrary: p) auto

lemma chained_upd:
  "k \<notin> set xs \<Longrightarrow> chained (fmupd k v m) p xs = chained m p xs"
  by (induction xs arbitrary: p) auto

lemma chained_snoc:
  assumes "n \<notin> set vs" and "vs \<noteq> []" and "chained m p vs"
  shows "chained (fmupd n (last vs) m) p (vs @ [n])"
  using assms by (simp add: chained_append chained_upd)

lemma walk_chained:
  assumes "chained m p (origin # post)" and "distinct (origin # post)"
    and "set seen \<inter> set (origin # post) = {}"
  shows "walk m seen (last (origin # post)) = rev post @ walk m (post @ seen) origin"
  using assms
proof (induction post arbitrary: seen rule: rev_induct)
  case Nil
  show ?case by simp
next
  case (snoc u post)
  let ?y = "last (origin # post)"
  from snoc.prems(1) have look: "fmlookup m u = Some ?y" and ch: "chained m p (origin # post)"
    using chained_append [of m p "origin # post" "[u]"] by simp_all
  from snoc.prems(2) have d: "distinct (origin # post)" and u: "u \<notin> set (origin # post)"
    by auto
  have y: "?y \<in> set (origin # post)"
    by (rule last_in_set) simp
  with u have yu: "?y \<noteq> u" by auto
  have "?y \<notin> set seen"
    using snoc.prems(3) y by auto
  with yu have fresh: "?y \<notin> set (u # seen)" by simp
  have disj: "set (u # seen) \<inter> set (origin # post) = {}"
    using snoc.prems(3) u by auto
  have "walk m seen u = u # walk m (u # seen) ?y"
    using look fresh by (subst walk.simps) simp
  also have "walk m (u # seen) ?y = rev post @ walk m (post @ u # seen) origin"
    by (rule snoc.IH [OF ch d disj])
  finally show ?case by simp
qed

text \<open>
  On a chain of distinct URIs, \<^verbatim>\<open>calculate\<close> for the last one gives what the manager
  has recorded above the first one, followed by the chain without its last URI.
\<close>

lemma calculate_chained:
  assumes "chained m p log" and "distinct log" and "log \<noteq> []"
  shows "calculate m (last log) = rev (tl (walk m (tl log) (hd log))) @ butlast log"
proof -
  from assms(3) obtain origin post where log: "log = origin # post"
    by (cases log) auto
  obtain rest where rest: "walk m post origin = origin # rest"
    using walk_Cons by blast
  have w: "walk m [] (last (origin # post)) = rev post @ walk m (post @ []) origin"
    using assms(1,2) by (intro walk_chained [where p = p]) (simp_all add: log)
  show ?thesis
  proof (cases post rule: rev_cases)
    case Nil
    with w rest show ?thesis by (simp add: calculate_def log)
  next
    case (snoc post' u)
    with w rest show ?thesis by (simp add: calculate_def log butlast_append)
  qed
qed

lemma calculate_chained_length:
  assumes "chained m p log" and "distinct log" and "log \<noteq> []"
  shows "length (butlast log) \<le> length (calculate m (last log))"
  by (simp add: calculate_chained [OF assms])

lemma calculate_chained_None:
  assumes "chained m None log" and "distinct log" and "log \<noteq> []"
  shows "calculate m (last log) = butlast log"
proof -
  from assms(3) obtain origin post where log: "log = origin # post"
    by (cases log) auto
  with assms(1) have "fmlookup m origin = None" by simp
  then have "walk m post origin = [origin]"
    by (subst walk.simps) simp
  with calculate_chained [OF assms] show ?thesis
    by (simp add: log)
qed

text \<open>
  The URIs requested in a call are distinct and linked in the manager in the order of the
  requests, below whatever predecessor \<open>p\<close> the first has. A redirect is followed only
  while the requests do not outnumber the maximum; a refused redirect has its edge
  recorded, and its count is at least the number of requests.
\<close>

lemma getUri_chain:
  fixes x :: collaborators
  assumes "distinct (requestedUrls @ [uriString])"
    and "chained (redirects this) p (requestedUrls @ [uriString])"
    and "getUri x uri this requestedUrls uriString = (res, this', log)"
  shows "distinct log
         \<and> (length log = Suc (length requestedUrls) \<or> int (length log) \<le> maxRedirectsLimit this + 1)
         \<and> (if \<exists>n k. res = Inl (TooManyRedirectsError n k)
             then \<exists>t. t \<notin> set log \<and> chained (redirects this') p (log @ [t])
                      \<and> res = Inl (TooManyRedirectsError (int (length (calculate (redirects this') t)))
                                     (maxRedirectsLimit this))
                      \<and> maxRedirectsLimit this < int (length (calculate (redirects this') t))
             else chained (redirects this') p log)"
  using assms
proof (induction this requestedUrls uriString arbitrary: res this' log rule: getUri_induct [of x])
  case (step this requestedUrls uriString)
  have new: "uriString \<notin> set requestedUrls"
    using step.prems(1) by simp
  have v: "setAdd uriString requestedUrls = requestedUrls @ [uriString]"
    using new by (rule setAdd_new)
  show ?case
  proof (cases rule: getUri_cases [where x = x and uri = uri and this = this
                 and requestedUrls = requestedUrls and uriString = uriString])
    case (network err)
    from step.prems(3) network(2) have "res = Inl (NetworkError uriString err)"
      and "this' = this" and "log = requestedUrls @ [uriString]"
      by (auto simp: v)
    with step.prems(1,2) show ?thesis by simp
  next
    case (terminal response)
    from step.prems(3) terminal(3) have "res = Inr (terminal x this uri uriString response)"
      and "this' = this" and "log = requestedUrls @ [uriString]"
      by (auto simp: v)
    with step.prems(1,2) show ?thesis by simp
  next
    case (missing response)
    from step.prems(3) missing(4) have "res = Inl (MissingLocationError uriString)"
      and "this' = this" and "log = requestedUrls @ [uriString]"
      by (auto simp: v)
    with step.prems(1,2) show ?thesis by simp
  next
    case (loop response loc)
    from step.prems(3) loop(5) have "res = Inl (RedirectLoopError uriString (requestMethod this))"
      and "this' = this" and "log = requestedUrls @ [uriString]"
      by (auto simp: v)
    with step.prems(1,2) show ?thesis by simp
  next
    case (toomany response loc)
    let ?n = "resolve x uriString loc"
    let ?m = "add ?n uriString (redirects this)"
    from step.prems(3) toomany(6)
    have res: "res = Inl (TooManyRedirectsError (int (length (calculate ?m ?n))) (maxRedirectsLimit this))"
      and this': "this' = this\<lparr> redirects := ?m \<rparr>"
      and log: "log = requestedUrls @ [uriString]"
      by (auto simp: v)
    have fresh: "?n \<notin> set (requestedUrls @ [uriString])"
      using toomany(4) by (simp add: v)
    have ch: "chained ?m p ((requestedUrls @ [uriString]) @ [?n])"
      using chained_snoc [OF fresh _ step.prems(2)] by (simp add: add_def)
    have "?n \<notin> set log \<and> chained (redirects this') p (log @ [?n])
          \<and> res = Inl (TooManyRedirectsError (int (length (calculate (redirects this') ?n)))
                         (maxRedirectsLimit this))
          \<and> maxRedirectsLimit this < int (length (calculate (redirects this') ?n))"
      using fresh ch toomany(5) by (simp add: res this' log)
    then have "\<exists>t. t \<notin> set log \<and> chained (redirects this') p (log @ [t])
          \<and> res = Inl (TooManyRedirectsError (int (length (calculate (redirects this') t)))
                         (maxRedirectsLimit this))
          \<and> maxRedirectsLimit this < int (length (calculate (redirects this') t))"
      by blast
    moreover have "distinct log" and "length log = Suc (length requestedUrls)"
      using step.prems(1) by (simp_all add: log)
    moreover have "\<exists>n k. res = Inl (TooManyRedirectsError n k)"
      by (simp add: res)
    ultimately show ?thesis by simp
  next
    case (follow response loc)
    let ?n = "resolve x uriString loc"
    let ?m = "add ?n uriString (redirects this)"
    let ?t = "this\<lparr> redirects := ?m \<rparr>"
    have fresh: "?n \<notin> set (requestedUrls @ [uriString])"
      using follow(4) by (simp add: v)
    have d0: "distinct ((requestedUrls @ [uriString]) @ [?n])"
      using step.prems(1) fresh by auto
    then have d: "distinct (setAdd uriString requestedUrls @ [?n])"
      by (simp add: v)
    have ch0: "chained ?m p ((requestedUrls @ [uriString]) @ [?n])"
      using chained_snoc [OF fresh _ step.prems(2)] by (simp add: add_def)
    then have ch: "chained (redirects ?t) p (setAdd uriString requestedUrls @ [?n])"
      by (simp add: v)
    have "length (butlast ((requestedUrls @ [uriString]) @ [?n]))
          \<le> length (calculate ?m (last ((requestedUrls @ [uriString]) @ [?n])))"
      by (rule calculate_chained_length [OF ch0 d0]) simp
    then have "length requestedUrls + 1 \<le> length (calculate ?m ?n)"
      by simp
    with follow(5) have le: "int (length requestedUrls) + 1 \<le> maxRedirectsLimit this"
      by linarith
    have call: "getUri x uri ?t (setAdd uriString requestedUrls) ?n = (res, this', log)"
      using follow(6) step.prems(3) by simp
    have lim: "maxRedirectsLimit ?t = maxRedirectsLimit this"
      by simp
    note ih = step.IH [OF follow(1) follow(2) follow(3) follow(4) follow(5) d ch call, unfolded lim]
    from ih have "distinct log" by simp
    moreover from ih le
    have "length log = Suc (length requestedUrls) \<or> int (length log) \<le> maxRedirectsLimit this + 1"
      by (auto simp: v)
    moreover from ih
    have "if \<exists>n k. res = Inl (TooManyRedirectsError n k)
          then \<exists>t. t \<notin> set log \<and> chained (redirects this') p (log @ [t])
                   \<and> res = Inl (TooManyRedirectsError (int (length (calculate (redirects this') t)))
                                  (maxRedirectsLimit this))
                   \<and> maxRedirectsLimit this < int (length (calculate (redirects this') t))
          else chained (redirects this') p log"
      by blast
    ultimately show ?thesis by blast
  qed
qed


subsection \<open>Terminal responses\<close>

lemma get_getUri:
  "\<not> startsWith uri ''data:'' \<Longrightarrow> get x this uri = getUri x uri this [] uri"
  by (simp add: get_def)

text \<open>The decoders take no part in the requests: they change neither the path nor the raw response.\<close>

lemma getUri_zlib:
  fixes x :: collaborators
  shows "snd (getUri (x\<lparr> zlib := z \<rparr>) uri this requestedUrls uriString)
           = snd (getUri x uri this requestedUrls uriString)
         \<and> map_sum id body_rawResponse (fst (getUri (x\<lparr> zlib := z \<rparr>) uri this requestedUrls uriString))
           = map_sum id body_rawResponse (fst (getUri x uri this requestedUrls uriString))"
proof (induction this requestedUrls uriString rule: getUri_induct [of x])
  case (step this requestedUrls uriString)
  let ?x = "x\<lparr> zlib := z \<rparr>"
  note unfold = getUri.simps [of ?x uri this requestedUrls uriString]
  show ?case
  proof (cases rule: getUri_cases [where x = x and uri = uri and this = this
                 and requestedUrls = requestedUrls and uriString = uriString])
    case (network err)
    then show ?thesis by (simp add: unfold)
  next
    case (terminal response)
    then show ?thesis by (simp add: unfold terminal_def Let_def)
  next
    case (missing response)
    then show ?thesis by (simp add: unfold)
  next
    case (loop response loc)
    then show ?thesis by (simp add: unfold Let_def)
  next
    case (toomany response loc)
    then show ?thesis by (simp add: unfold Let_def)
  next
    case (follow response loc)
    have "getUri ?x uri this requestedUrls uriString
          = getUri ?x uri (this\<lparr> redirects := add (resolve x uriString loc) uriString (redirects this) \<rparr>)
              (setAdd uriString requestedUrls) (resolve x uriString loc)"
      using follow(1-5) by (simp add: unfold Let_def)
    with step.IH [OF follow(1-5)] follow(6) show ?thesis by simp
  qed
qed

text \<open>
  C3. For a terminal response to a URI that is not a data URI, the raw response of the
  result is the concatenation of the chunks the transport delivered for the final URI.
  It is there whatever the decoders do: with any other decoders in their place, the call
  ends with the same raw response.
\<close>

theorem get_rawResponse:
  fixes x :: collaborators
  assumes "\<not> startsWith uri ''data:''"
    and "get x this uri = (Inr networkData, this', log)"
  shows "(\<exists>response. request x (response_url networkData) = Inr response
            \<and> body_rawResponse networkData = concat (byteChunks response))
         \<and> (\<forall>z. map_sum id body_rawResponse (fst (get (x\<lparr> zlib := z \<rparr>) this uri))
                 = Inr (body_rawResponse networkData))"
proof -
  have call: "getUri x uri this [] uri = (Inr networkData, this', log)"
    using assms by (simp add: get_getUri)
  note out = getUri_outcome [OF _ call, simplified]
  then obtain response where r: "request x (last log) = Inr response"
    and nd: "networkData = terminal x this' uri (last log) response"
    by (auto split: sum.splits if_splits option.splits)
  have url: "response_url networkData = last log"
    by (simp add: nd terminal_def Let_def)
  have raw: "body_rawResponse networkData = concat (byteChunks response)"
    by (simp add: nd terminal_def Let_def)
  have "map_sum id body_rawResponse (fst (get (x\<lparr> zlib := z \<rparr>) this uri))
        = Inr (body_rawResponse networkData)" for z
    using getUri_zlib [of z x uri this "[]" uri] assms(1) call
    by (simp add: get_def)
  with r url raw show ?thesis by auto
qed

text \<open>
  C7. When the last request is answered by a terminal response, the call succeeds
  whatever the charset is; the raw content is present, and the content is the decoded
  text when the charset decoder knows the resolved charset and null when it does not.
\<close>

theorem get_content:
  fixes x :: collaborators
  assumes "\<not> startsWith uri ''data:''"
    and "get x this uri = (res, this', log)"
    and "request x (last log) = Inr response"
    and "statusCode response \<notin> set validRedirects"
  shows "\<exists>networkData rawBody.
           res = Inr networkData
           \<and> body_rawContent networkData = Some rawBody
           \<and> body_content networkData
               = (if encodingExists x (charset networkData)
                  then Text (decode x rawBody (charset networkData)) else Null)"
proof -
  have call: "getUri x uri this [] uri = (res, this', log)"
    using assms(1,2) by (simp add: get_getUri)
  from getUri_outcome [OF _ call, simplified] assms(3,4)
  have res: "res = Inr (terminal x this' uri (last log) response)"
    by simp
  obtain rawBody where b: "decompressResponse (zlib x)
        (normalizeHeaderValue x (incomingHeaders response) ''content-encoding'')
        (concat (byteChunks response)) = Some rawBody"
    using decompressResponse_Some by blast
  show ?thesis
    by (simp add: res terminal_def Let_def b)
qed

subsection \<open>Redirects\<close>

text \<open>
  C4. \<open>log\<close> lists the requests of the call in order, none of them twice. When the
  answer to the last of them is a redirect that resolves to a URI requested before in
  this call, the call ends there with the redirect loop error: no request follows it.
  \<^verbatim>\<open>getUri\<close> is a total function, so every call ends.
\<close>

theorem get_redirect_loop:
  fixes x :: collaborators
  assumes "\<not> startsWith uri ''data:''"
    and "get x this uri = (res, this', log)"
    and "request x (last log) = Inr response"
    and "statusCode response \<in> set validRedirects"
    and "location response = Some loc"
    and "resolve x (last log) loc \<in> set log"
  shows "res = Inl (RedirectLoopError (last log) (requestMethod this)) \<and> distinct log"
proof -
  have call: "getUri x uri this [] uri = (res, this', log)"
    using assms(1,2) by (simp add: get_getUri)
  have "distinct log"
    using getUri_distinct [OF _ call] by simp
  with getUri_outcome [OF _ call, simplified] assms(3-6)
  show ?thesis by simp
qed


text \<open>
  C6, as the code has it. For a terminal result of \<^verbatim>\<open>get\<close>, the hops are the chain
  recorded for the final URI, the final URI itself left out; they are what
  \<^verbatim>\<open>getRedirects\<close> gives for the final URI afterwards. They end with the URIs
  requested in this call before the final one, in order and without repetition, from the
  URI of the call on; before these come the URIs the instance has recorded above the URI
  of the call. The URL of the request is the first hop, or the final URI when there is no
  hop or the first hop is the empty string. When the URI of the call has no recorded
  predecessor (every call on a new instance), the hops are exactly the URIs requested
  before the final one: none when there was no redirect, and the URL of the request is
  the URI of the call (the final URI when that URI is the empty string).
\<close>

theorem get_hops:
  fixes x :: collaborators
  assumes "\<not> startsWith uri ''data:''"
    and "get x this uri = (Inr networkData, this', log)"
  shows "(\<exists>older. hops networkData = older @ butlast log)
         \<and> distinct log
         \<and> hd log = uri
         \<and> last log = response_url networkData
         \<and> getRedirects this' (response_url networkData) = hops networkData
         \<and> request_url networkData
             = (case hops networkData of
                  [] \<Rightarrow> response_url networkData
                | h # _ \<Rightarrow> if h = [] then response_url networkData else h)
         \<and> (fmlookup (redirects this) uri = None \<longrightarrow>
               hops networkData = butlast log
               \<and> request_url networkData = (if uri = [] then response_url networkData else uri))"
proof -
  have call: "getUri x uri this [] uri = (Inr networkData, this', log)"
    using assms by (simp add: get_getUri)
  note out = getUri_outcome [OF _ call, simplified]
  then obtain response where nd: "networkData = terminal x this' uri (last log) response"
    by (auto split: sum.splits if_splits option.splits)
  from out obtain ext where log: "log = uri # ext"
    by auto
  then have ne: "log \<noteq> []" by simp
  have start: "distinct ([] @ [uri])"
    "chained (redirects this) (fmlookup (redirects this) uri) ([] @ [uri])"
    by simp_all
  from getUri_chain [OF start call] have d: "distinct log"
    and ch: "chained (redirects this') (fmlookup (redirects this) uri) log"
    by simp_all
  have h: "hops networkData = calculate (redirects this') (last log)"
    by (simp add: nd terminal_def Let_def)
  have u: "response_url networkData = last log"
    by (simp add: nd terminal_def Let_def)
  have older: "\<exists>older. hops networkData = older @ butlast log"
    using calculate_chained [OF ch d ne] h by simp
  have g: "getRedirects this' (response_url networkData) = hops networkData"
    by (simp add: getRedirects_def u h)
  have r: "request_url networkData
           = (case hops networkData of
                [] \<Rightarrow> response_url networkData
              | h # _ \<Rightarrow> if h = [] then response_url networkData else h)"
    unfolding h u by (simp add: nd terminal_def Let_def)
  have new: "hops networkData = butlast log
             \<and> request_url networkData = (if uri = [] then response_url networkData else uri)"
    if none: "fmlookup (redirects this) uri = None"
  proof -
    have "calculate (redirects this') (last log) = butlast log"
      using ch d ne by (intro calculate_chained_None) (simp_all add: none)
    with h have hb: "hops networkData = butlast log"
      by simp
    have "request_url networkData
          = (case butlast log of [] \<Rightarrow> last log | h # _ \<Rightarrow> if h = [] then last log else h)"
      using r by (simp only: hb u)
    also have "\<dots> = (if uri = [] then last log else uri)"
      by (cases ext) (simp_all add: log)
    finally show ?thesis
      using hb by (simp add: u)
  qed
  from older d log u g r new show ?thesis
    by simp
qed

subsection \<open>The properties on explicit inputs\<close>

lemmas run = get_def startsWith_def getUri.simps setAdd_def testCollaborators_def
  redirectTo_def page_def validRedirects_def location_def constructor_def defaults_def
  assignOptions_def assignProp_def add_def calculate_def walk.simps requestMethod_def
  loopServer_def chainServer_def pageServer_def bareRedirectServer_def downServer_def Let_def

lemmas run_terminal = terminal_def Let_def decompressResponse.simps decompressors_def priorities_def
  objectPrototypeKeys_def trim_def isWhiteSpace_def tryToDecompress_def identity_def
  inflate_def framedCodecs_def unframe_def

text \<open>
  With a configured maximum of 0 the instance has the limit 10 and follows redirects; with
  a configured maximum of 3 the limit is 3.
\<close>

theorem constructor_maxRedirects_witness:
  "maxRedirects (defaults\<lparr> maxRedirects := Some 0 \<rparr>) = Some 0
   \<and> maxRedirectsLimit (constructor id (Some (defaults\<lparr> maxRedirects := Some 0 \<rparr>))) = 10
   \<and> map_sum id response_url
         (fst (get (testCollaborators (chainServer 2) ''utf-8'')
                 (constructor id (Some (defaults\<lparr> maxRedirects := Some 0 \<rparr>))) ''http://h/''))
       = Inr ''http://h/++''
   \<and> maxRedirects (defaults\<lparr> maxRedirects := Some 3 \<rparr>) = Some 3
   \<and> maxRedirectsLimit (constructor id (Some (defaults\<lparr> maxRedirects := Some 3 \<rparr>))) = 3"
proof -
  have "map_sum id response_url
         (fst (get (testCollaborators (chainServer 2) ''utf-8'')
                 (constructor id (Some (defaults\<lparr> maxRedirects := Some 0 \<rparr>))) ''http://h/''))
       = Inr ''http://h/++''"
    by (simp add: run terminal_def)
  then show ?thesis
    using constructor_maxRedirects [of "defaults\<lparr> maxRedirects := Some 0 \<rparr>" 0 id]
          constructor_maxRedirects [of "defaults\<lparr> maxRedirects := Some 3 \<rparr>" 3 id]
    by simp
qed

theorem constructor_without_options_witness:
  "options (constructor id None) = defaults
   \<and> followRedirect (options (constructor id None)) = Some False
   \<and> rejectUnauthorized (options (constructor id None)) = None"
  by (rule constructor_without_options)



theorem get_rawResponse_witness:
  "\<not> startsWith ''http://a/'' ''data:''
   \<and> get (testCollaborators (pageServer [(''content-encoding'', ''br'')] [[0x1F, 0x8B], ascii ''Hello'']) ''utf-8'')
         (constructor id None) ''http://a/''
       = (Inr (terminal
                 (testCollaborators (pageServer [(''content-encoding'', ''br'')] [[0x1F, 0x8B], ascii ''Hello'']) ''utf-8'')
                 (constructor id None) ''http://a/'' ''http://a/''
                 (page [(''content-encoding'', ''br'')] [[0x1F, 0x8B], ascii ''Hello''])),
          constructor id None, [''http://a/''])
   \<and> body_rawContent
         (terminal
            (testCollaborators (pageServer [(''content-encoding'', ''br'')] [[0x1F, 0x8B], ascii ''Hello'']) ''utf-8'')
            (constructor id None) ''http://a/'' ''http://a/''
            (page [(''content-encoding'', ''br'')] [[0x1F, 0x8B], ascii ''Hello'']))
       = Some (ascii ''Hello'')
   \<and> body_rawResponse
         (terminal
            (testCollaborators (pageServer [(''content-encoding'', ''br'')] [[0x1F, 0x8B], ascii ''Hello'']) ''utf-8'')
            (constructor id None) ''http://a/'' ''http://a/''
            (page [(''content-encoding'', ''br'')] [[0x1F, 0x8B], ascii ''Hello'']))
       = [0x1F, 0x8B] @ ascii ''Hello''
   \<and> (\<forall>z. map_sum id body_rawResponse
              (fst (get ((testCollaborators (pageServer [(''content-encoding'', ''br'')] [[0x1F, 0x8B], ascii ''Hello'']) ''utf-8'')
                           \<lparr> zlib := z \<rparr>)
                      (constructor id None) ''http://a/''))
            = Inr ([0x1F, 0x8B] @ ascii ''Hello''))"
proof -
  let ?x = "testCollaborators (pageServer [(''content-encoding'', ''br'')] [[0x1F, 0x8B], ascii ''Hello'']) ''utf-8''"
  let ?nd = "terminal ?x (constructor id None) ''http://a/'' ''http://a/''
               (page [(''content-encoding'', ''br'')] [[0x1F, 0x8B], ascii ''Hello''])"
  have a: "\<not> startsWith ''http://a/'' ''data:''"
    by (simp add: startsWith_def)
  have b: "get ?x (constructor id None) ''http://a/'' = (Inr ?nd, constructor id None, [''http://a/''])"
    by (simp add: run)
  have c: "body_rawContent ?nd = Some (ascii ''Hello'')"
    by (simp add: run_terminal testCollaborators_def page_def)
  have d: "body_rawResponse ?nd = [0x1F, 0x8B] @ ascii ''Hello''"
    by (simp add: terminal_def page_def Let_def)
  show ?thesis
    using get_rawResponse [OF a b] a b c d by simp
qed

theorem get_content_witness:
  "\<not> startsWith ''http://a/'' ''data:''
   \<and> get (testCollaborators (pageServer [] [ascii ''Hello'']) ''x-made-up'') (constructor id None) ''http://a/''
       = (Inr (terminal (testCollaborators (pageServer [] [ascii ''Hello'']) ''x-made-up'')
                 (constructor id None) ''http://a/'' ''http://a/'' (page [] [ascii ''Hello''])),
          constructor id None, [''http://a/''])
   \<and> request (testCollaborators (pageServer [] [ascii ''Hello'']) ''x-made-up'') (last [''http://a/''])
       = Inr (page [] [ascii ''Hello''])
   \<and> statusCode (page [] [ascii ''Hello'']) \<notin> set validRedirects
   \<and> charset (terminal (testCollaborators (pageServer [] [ascii ''Hello'']) ''x-made-up'')
                 (constructor id None) ''http://a/'' ''http://a/'' (page [] [ascii ''Hello'']))
       = ''x-made-up''
   \<and> \<not> encodingExists (testCollaborators (pageServer [] [ascii ''Hello'']) ''x-made-up'') ''x-made-up''
   \<and> body_content (terminal (testCollaborators (pageServer [] [ascii ''Hello'']) ''x-made-up'')
                 (constructor id None) ''http://a/'' ''http://a/'' (page [] [ascii ''Hello'']))
       = Null
   \<and> body_rawContent (terminal (testCollaborators (pageServer [] [ascii ''Hello'']) ''x-made-up'')
                 (constructor id None) ''http://a/'' ''http://a/'' (page [] [ascii ''Hello'']))
       = Some (ascii ''Hello'')"
proof -
  let ?x = "testCollaborators (pageServer [] [ascii ''Hello'']) ''x-made-up''"
  let ?nd = "terminal ?x (constructor id None) ''http://a/'' ''http://a/'' (page [] [ascii ''Hello''])"
  have a: "\<not> startsWith ''http://a/'' ''data:''"
    by (simp add: startsWith_def)
  have b: "get ?x (constructor id None) ''http://a/'' = (Inr ?nd, constructor id None, [''http://a/''])"
    by (simp add: run)
  have c: "request ?x (last [''http://a/'']) = Inr (page [] [ascii ''Hello''])"
    by (simp add: testCollaborators_def pageServer_def)
  have d: "statusCode (page [] [ascii ''Hello'']) \<notin> set validRedirects"
    by (simp add: page_def validRedirects_def)
  have e: "charset ?nd = ''x-made-up''" and f: "\<not> encodingExists ?x ''x-made-up''"
    by (simp_all add: terminal_def testCollaborators_def Let_def)
  have g: "body_rawContent ?nd = Some (ascii ''Hello'')"
    by (simp add: run_terminal testCollaborators_def page_def)
  from get_content [OF a b c d] e f have "body_content ?nd = Null"
    by auto
  with a b c d e f g show ?thesis by simp
qed

theorem get_redirect_loop_witness:
  "\<not> startsWith ''http://a/'' ''data:''
   \<and> get (testCollaborators loopServer ''utf-8'') (constructor id None) ''http://a/''
       = (Inl (RedirectLoopError ''http://b/'' ''GET''),
          (constructor id None)\<lparr> redirects := fmupd ''http://b/'' ''http://a/'' fmempty \<rparr>,
          [''http://a/'', ''http://b/''])
   \<and> request (testCollaborators loopServer ''utf-8'') (last [''http://a/'', ''http://b/''])
       = Inr (redirectTo ''http://a/'')
   \<and> statusCode (redirectTo ''http://a/'') \<in> set validRedirects
   \<and> location (redirectTo ''http://a/'') = Some ''http://a/''
   \<and> resolve (testCollaborators loopServer ''utf-8'') (last [''http://a/'', ''http://b/'']) ''http://a/''
       \<in> set [''http://a/'', ''http://b/'']
   \<and> requestMethod (constructor id None) = ''GET''"
proof -
  let ?x = "testCollaborators loopServer ''utf-8''"
  let ?log = "[''http://a/'', ''http://b/'']"
  have a: "\<not> startsWith ''http://a/'' ''data:''"
    by (simp add: startsWith_def)
  have c: "request ?x (last ?log) = Inr (redirectTo ''http://a/'')"
    by (simp add: testCollaborators_def loopServer_def)
  have d: "statusCode (redirectTo ''http://a/'') \<in> set validRedirects"
    by (simp add: redirectTo_def validRedirects_def)
  have e: "location (redirectTo ''http://a/'') = Some ''http://a/''"
    by (simp add: redirectTo_def location_def)
  have f: "resolve ?x (last ?log) ''http://a/'' \<in> set ?log"
    by (simp add: testCollaborators_def)
  have g: "requestMethod (constructor id None) = ''GET''"
    by (simp add: run)
  obtain res this' where b: "get ?x (constructor id None) ''http://a/'' = (res, this', ?log)"
    by (simp add: run)
  from get_redirect_loop [OF a b c d e f] b
  have "get ?x (constructor id None) ''http://a/''
        = (Inl (RedirectLoopError ''http://b/'' ''GET''), this', ?log)"
    by (simp add: g)
  moreover have "snd (get ?x (constructor id None) ''http://a/'')
        = ((constructor id None)\<lparr> redirects := fmupd ''http://b/'' ''http://a/'' fmempty \<rparr>, ?log)"
    by (simp add: run)
  ultimately show ?thesis
    using a c d e f g by simp
qed


theorem get_hops_witness:
  "\<not> startsWith ''http://h/'' ''data:''
   \<and> fmlookup (redirects (constructor id None)) ''http://h/'' = None
   \<and> snd (snd (get (testCollaborators (chainServer 2) ''utf-8'') (constructor id None) ''http://h/''))
       = [''http://h/'', ''http://h/+'', ''http://h/++'']
   \<and> map_sum id hops
         (fst (get (testCollaborators (chainServer 2) ''utf-8'') (constructor id None) ''http://h/''))
       = Inr [''http://h/'', ''http://h/+'']
   \<and> map_sum id request_url
         (fst (get (testCollaborators (chainServer 2) ''utf-8'') (constructor id None) ''http://h/''))
       = Inr ''http://h/''
   \<and> map_sum id response_url
         (fst (get (testCollaborators (chainServer 2) ''utf-8'') (constructor id None) ''http://h/''))
       = Inr ''http://h/++''
   \<and> snd (snd (get (testCollaborators (pageServer [] [ascii ''Hello'']) ''utf-8'') (constructor id None)
                  ''http://a/''))
       = [''http://a/'']
   \<and> map_sum id hops
         (fst (get (testCollaborators (pageServer [] [ascii ''Hello'']) ''utf-8'') (constructor id None)
                 ''http://a/''))
       = Inr []
   \<and> map_sum id request_url
         (fst (get (testCollaborators (pageServer [] [ascii ''Hello'']) ''utf-8'') (constructor id None)
                 ''http://a/''))
       = Inr ''http://a/''"
proof -
  let ?x = "testCollaborators (chainServer 2) ''utf-8''"
  let ?r = "(constructor id None)
               \<lparr> redirects := fmupd ''http://h/++'' ''http://h/+''
                                (fmupd ''http://h/+'' ''http://h/'' fmempty) \<rparr>"
  let ?log = "[''http://h/'', ''http://h/+'', ''http://h/++'']"
  let ?nd = "terminal ?x ?r ''http://h/'' ''http://h/++'' (page [] [ascii ''end''])"
  let ?y = "testCollaborators (pageServer [] [ascii ''Hello'']) ''utf-8''"
  let ?pd = "terminal ?y (constructor id None) ''http://a/'' ''http://a/'' (page [] [ascii ''Hello''])"
  have a: "\<not> startsWith ''http://h/'' ''data:''" and a': "\<not> startsWith ''http://a/'' ''data:''"
    by (simp_all add: startsWith_def)
  have b: "fmlookup (redirects (constructor id None)) ''http://h/'' = None"
    and b': "fmlookup (redirects (constructor id None)) ''http://a/'' = None"
    by (simp_all add: constructor_def)
  have c: "get ?x (constructor id None) ''http://h/'' = (Inr ?nd, ?r, ?log)"
    by (simp add: run)
  have c': "get ?y (constructor id None) ''http://a/'' = (Inr ?pd, constructor id None, [''http://a/''])"
    by (simp add: run)
  have d: "response_url ?nd = ''http://h/++''" and d': "response_url ?pd = ''http://a/''"
    by (simp_all add: terminal_def Let_def)
  from get_hops [OF a c] get_hops [OF a' c'] d d' a b b' c c' show ?thesis
    by simp
qed

text \<open>
  C6 as the spec states it fails with one redirect: the hops are the URI of the call,
  which is not the first redirect target, and the final URI is not among them. It also
  fails on the instance the call leaves behind: a call for the final URI issues one
  request and follows no redirect, and yet its hops are not empty and the URL of its
  request is not the URI of the call.
\<close>

theorem get_hops_example:
  "snd (get (testCollaborators (chainServer 1) ''utf-8'') (constructor id None) ''http://h/'')
     = ((constructor id None)\<lparr> redirects := fmupd ''http://h/+'' ''http://h/'' fmempty \<rparr>,
        [''http://h/'', ''http://h/+''])
   \<and> map_sum id hops
         (fst (get (testCollaborators (chainServer 1) ''utf-8'') (constructor id None) ''http://h/''))
       = Inr [''http://h/'']
   \<and> map_sum id hops
         (fst (get (testCollaborators (chainServer 1) ''utf-8'') (constructor id None) ''http://h/''))
       \<noteq> Inr [''http://h/+'']
   \<and> map_sum id response_url
         (fst (get (testCollaborators (chainServer 1) ''utf-8'') (constructor id None) ''http://h/''))
       = Inr ''http://h/+''
   \<and> snd (snd (get (testCollaborators (chainServer 1) ''utf-8'')
                  ((constructor id None)\<lparr> redirects := fmupd ''http://h/+'' ''http://h/'' fmempty \<rparr>)
                  ''http://h/+''))
       = [''http://h/+'']
   \<and> map_sum id hops
         (fst (get (testCollaborators (chainServer 1) ''utf-8'')
                 ((constructor id None)\<lparr> redirects := fmupd ''http://h/+'' ''http://h/'' fmempty \<rparr>)
                 ''http://h/+''))
       = Inr [''http://h/'']
   \<and> map_sum id request_url
         (fst (get (testCollaborators (chainServer 1) ''utf-8'')
                 ((constructor id None)\<lparr> redirects := fmupd ''http://h/+'' ''http://h/'' fmempty \<rparr>)
                 ''http://h/+''))
       = Inr ''http://h/''"
  by (simp add: run terminal_def)

subsection \<open>Further properties\<close>

text \<open>
  The cascade never returns null for a buffer: the identity closes every list of
  candidates.
\<close>

theorem decompressResponse_total:
  "\<exists>rawBody. decompressResponse z contentEncoding rawBodyResponse = Some rawBody"
  by (rule decompressResponse_Some)

theorem decompressResponse_br_fallback_witness:
  "decompressBrotli framedCodecs ([0x1F, 0x8B] @ ascii ''page'') = None
   \<and> decompressGzip framedCodecs ([0x1F, 0x8B] @ ascii ''page'') = Some (ascii ''page'')
   \<and> decompressResponse framedCodecs (Some ''br'') ([0x1F, 0x8B] @ ascii ''page'')
       = Some (ascii ''page'')"
proof -
  have a: "decompressBrotli framedCodecs ([0x1F, 0x8B] @ ascii ''page'') = None"
    by (simp add: framedCodecs_def unframe_def)
  have b: "decompressGzip framedCodecs ([0x1F, 0x8B] @ ascii ''page'') = Some (ascii ''page'')"
    by (simp add: framedCodecs_def unframe_def)
  show ?thesis
    using decompressResponse_br_fallback [OF a b] a b by simp
qed

theorem decompressResponse_unrecognized_witness:
  "CHR '','' \<notin> set '' compress ''
   \<and> priorities (trim '' compress '') = Undefined
   \<and> decompressResponse framedCodecs (Some '' compress '') ([0x1F, 0x8B] @ ascii ''page'')
       = Some ([0x1F, 0x8B] @ ascii ''page'')"
proof -
  have a: "CHR '','' \<notin> set '' compress ''"
    by simp
  have b: "priorities (trim '' compress '') = Undefined"
    by (simp add: priorities_def trim_def isWhiteSpace_def objectPrototypeKeys_def)
  show ?thesis
    using decompressResponse_unrecognized [OF a b] a b by simp
qed

text \<open>
  A redirect without a location, and a transport error, end the call with the error for
  the URI that was requested last.
\<close>

theorem get_missing_location:
  fixes x :: collaborators
  assumes "\<not> startsWith uri ''data:''"
    and "get x this uri = (res, this', log)"
    and "request x (last log) = Inr response"
    and "statusCode response \<in> set validRedirects"
    and "location response = None"
  shows "res = Inl (MissingLocationError (last log))"
proof -
  have call: "getUri x uri this [] uri = (res, this', log)"
    using assms(1,2) by (simp add: get_getUri)
  from getUri_outcome [OF _ call, simplified] assms(3-5)
  show ?thesis by simp
qed

theorem get_missing_location_witness:
  "\<not> startsWith ''http://a/'' ''data:''
   \<and> get (testCollaborators bareRedirectServer ''utf-8'') (constructor id None) ''http://a/''
       = (Inl (MissingLocationError ''http://a/''), constructor id None, [''http://a/''])
   \<and> request (testCollaborators bareRedirectServer ''utf-8'') (last [''http://a/''])
       = bareRedirectServer ''http://a/''
   \<and> location \<lparr> statusCode = 301, incomingHeaders = [], sentHeaders = defaultHeaders,
                   byteChunks = [] \<rparr> = None"
proof -
  let ?x = "testCollaborators bareRedirectServer ''utf-8''"
  let ?r = "\<lparr> statusCode = 301, incomingHeaders = [], sentHeaders = defaultHeaders,
              byteChunks = [] \<rparr>"
  have a: "\<not> startsWith ''http://a/'' ''data:''"
    by (simp add: startsWith_def)
  obtain res where b: "get ?x (constructor id None) ''http://a/''
      = (res, constructor id None, [''http://a/''])"
    by (simp add: run)
  have c: "request ?x (last [''http://a/'']) = Inr ?r"
    by (simp add: testCollaborators_def bareRedirectServer_def)
  have d: "statusCode ?r \<in> set validRedirects"
    by (simp add: validRedirects_def)
  have e: "location ?r = None"
    by (simp add: location_def)
  from get_missing_location [OF a b c d e] a b c e show ?thesis
    by (simp add: bareRedirectServer_def)
qed

theorem get_network_error:
  fixes x :: collaborators
  assumes "\<not> startsWith uri ''data:''"
    and "get x this uri = (res, this', log)"
    and "request x (last log) = Inl err"
  shows "res = Inl (NetworkError (last log) err)"
proof -
  have call: "getUri x uri this [] uri = (res, this', log)"
    using assms(1,2) by (simp add: get_getUri)
  from getUri_outcome [OF _ call, simplified] assms(3)
  show ?thesis by simp
qed

theorem get_network_error_witness:
  "\<not> startsWith ''http://a/'' ''data:''
   \<and> get (testCollaborators downServer ''utf-8'') (constructor id None) ''http://a/''
       = (Inl (NetworkError ''http://a/'' ''ECONNREFUSED''), constructor id None, [''http://a/''])
   \<and> request (testCollaborators downServer ''utf-8'') (last [''http://a/'']) = Inl ''ECONNREFUSED''"
proof -
  let ?x = "testCollaborators downServer ''utf-8''"
  have a: "\<not> startsWith ''http://a/'' ''data:''"
    by (simp add: startsWith_def)
  obtain res where b: "get ?x (constructor id None) ''http://a/''
      = (res, constructor id None, [''http://a/''])"
    by (simp add: run)
  have c: "request ?x (last [''http://a/'']) = Inl ''ECONNREFUSED''"
    by (simp add: testCollaborators_def downServer_def)
  from get_network_error [OF a b c] a b c show ?thesis
    by simp
qed

end
